theory Spec2Isabelle
  imports Complex_Main "HOL-Library.Sublist"
begin

section \<open>Data model of \<^verbatim>\<open>erp.py\<close>\<close>

text \<open>
  The three SQLAlchemy tables become records, the database a record of three row lists
  in insertion order (the order in which a query without \<^verbatim>\<open>ORDER BY\<close> scans an
  SQLite table). Integer primary keys are natural numbers, a \<^verbatim>\<open>Date\<close> is its
  ordinal day, a \<^verbatim>\<open>Time\<close> and a \<^verbatim>\<open>DateTime\<close> are clock readings. Only the
  columns the code ever leaves \<^verbatim>\<open>NULL\<close> (\<^verbatim>\<open>check_out\<close>, \<^verbatim>\<open>assigned_to\<close>)
  are optional; every insert of the source sets the others. Both \<^verbatim>\<open>User\<close> and
  \<^verbatim>\<open>Attendance\<close> have a column \<^verbatim>\<open>user_id\<close>; the second is \<open>att_user_id\<close> here.
  The salary is a float that the code only stores; it is carried as a real number.
\<close>

type_synonym pydate = int
type_synonym pytime = nat
type_synonym pydatetime = int

record User =
  user_id :: nat
  full_name :: string
  phone_number :: string
  email :: string
  aadhar_number :: string
  service_domain :: string
  role :: string
  level_of_employment :: string
  date_of_joining :: pydate
  salary :: real
  certifications :: string
  password_hash :: string

record Attendance =
  attendance_id :: nat
  att_user_id :: nat
  date :: pydate
  check_in :: pytime
  check_out :: "pytime option"

record ServiceTicket =
  ticket_id :: nat
  client_id :: nat
  service_type :: string
  description :: string
  assigned_to :: "nat option"
  status :: string
  created_at :: pydatetime
  updated_at :: pydatetime

record db =
  users :: "User list"
  attendance :: "Attendance list"
  service_tickets :: "ServiceTicket list"

definition init_db :: db where
  "init_db = \<lparr>users = [], attendance = [], service_tickets = []\<rparr>"

text \<open>
  An integer primary key that the insert leaves out: SQLite takes the largest key of the
  table plus one (one in an empty table).
\<close>

definition next_id :: "nat list \<Rightarrow> nat" where
  "next_id ids = Suc (fold max ids 0)"

subsection \<open>What a page run reads and shows\<close>

text \<open>
  An f-string is kept as the list of its pieces, the interpolated values unrendered:
  \<^verbatim>\<open>f"assign_{ticket.ticket_id}"\<close> is \<open>[Lit ''assign_'', Num (ticket_id ticket)]\<close>.
  A plain string literal is a single \<open>Lit\<close>. A page run returns the elements it shows,
  in order: \<^verbatim>\<open>st.header\<close>, \<^verbatim>\<open>st.write\<close>, \<^verbatim>\<open>st.success\<close>, \<^verbatim>\<open>st.error\<close>, each
  \<^verbatim>\<open>st.button\<close> it renders (label and key; the key is the label where the source
  gives none) and \<^verbatim>\<open>st.experimental_rerun\<close>, which ends the run. The input widgets
  are the arguments of the page: the key of the button whose click started the run
  (if any), the texts typed and the choices made.
\<close>

datatype piece = Lit string | Num nat | TimeV "pytime option" | DateV pydate

type_synonym fstring = "piece list"

datatype elem =
    Header string
  | Write fstring
  | Success fstring
  | Error string
  | Button fstring fstring
  | Rerun

datatype error = KeyError "fstring option" | IntegrityError

text \<open>
  \<^verbatim>\<open>st.button\<close> is true in the run its click started. \<^verbatim>\<open>st.selectbox\<close> returns one
  of its options: the one chosen, the first one when nothing (or nothing it offers) was
  chosen, \<^verbatim>\<open>None\<close> when it has no option.
\<close>

definition button :: "fstring option \<Rightarrow> fstring \<Rightarrow> bool" where
  "button clicked key = (clicked = Some key)"

definition selectbox :: "'a list \<Rightarrow> 'a option \<Rightarrow> 'a option" where
  "selectbox options choice =
     (case options of
        [] \<Rightarrow> None
      | x # _ \<Rightarrow>
          (case choice of
             None \<Rightarrow> Some x
           | Some c \<Rightarrow> if c \<in> set options then Some c else Some x))"

section \<open>Helper functions\<close>

definition get_user_by_email :: "db \<Rightarrow> string \<Rightarrow> User option" where
  "get_user_by_email d e = List.find (\<lambda>u. email u = e) (users d)"

text \<open>
  The \<^verbatim>\<open>user_data\<close> dictionary: a key that is absent is \<open>None\<close>. The keys read with
  \<^verbatim>\<open>user_data[...]\<close> raise \<^verbatim>\<open>KeyError\<close> when absent, those read with
  \<^verbatim>\<open>.get\<close> have a default.
\<close>

record user_data =
  ud_full_name :: "string option"
  ud_phone_number :: "string option"
  ud_email :: "string option"
  ud_aadhar_number :: "string option"
  ud_service_domain :: "string option"
  ud_role :: "string option"
  ud_level_of_employment :: "string option"
  ud_date_of_joining :: "pydate option"
  ud_salary :: "real option"
  ud_certifications :: "string option"
  ud_password :: "string option"

definition subscript :: "string \<Rightarrow> 'a option \<Rightarrow> error + 'a" where
  "subscript k v = (case v of None \<Rightarrow> Inl (KeyError (Some [Lit k])) | Some x \<Rightarrow> Inr x)"

definition get_default :: "'a option \<Rightarrow> 'a \<Rightarrow> 'a" where
  "get_default v dflt = (case v of None \<Rightarrow> dflt | Some x \<Rightarrow> x)"

text \<open>
  \<^verbatim>\<open>create_user\<close>. The keyword arguments are evaluated in the order written, so the
  first required key that is missing raises. \<open>hashpw\<close> is \<^verbatim>\<open>bcrypt.hashpw\<close> and
  \<open>salt\<close> the result of this call's \<^verbatim>\<open>bcrypt.gensalt()\<close>. The commit fails with
  \<^verbatim>\<open>IntegrityError\<close> on the two \<^verbatim>\<open>unique=True\<close> columns. No line of the function
  looks at the value of the role.
\<close>

definition hash_password :: "(string \<Rightarrow> string \<Rightarrow> string) \<Rightarrow> string \<Rightarrow> string \<Rightarrow> string" where
  "hash_password hashpw salt password = hashpw password salt"

definition create_user ::
  "(string \<Rightarrow> string \<Rightarrow> string) \<Rightarrow> string \<Rightarrow> pydate \<Rightarrow> db \<Rightarrow> user_data \<Rightarrow> error + (db \<times> User)" where
  "create_user hashpw salt today d ud =
     (case subscript ''full_name'' (ud_full_name ud) of Inl e \<Rightarrow> Inl e | Inr fn \<Rightarrow>
      case subscript ''phone_number'' (ud_phone_number ud) of Inl e \<Rightarrow> Inl e | Inr pn \<Rightarrow>
      case subscript ''email'' (ud_email ud) of Inl e \<Rightarrow> Inl e | Inr em \<Rightarrow>
      case subscript ''aadhar_number'' (ud_aadhar_number ud) of Inl e \<Rightarrow> Inl e | Inr an \<Rightarrow>
      case subscript ''role'' (ud_role ud) of Inl e \<Rightarrow> Inl e | Inr rl \<Rightarrow>
      case subscript ''password'' (ud_password ud) of Inl e \<Rightarrow> Inl e | Inr pw \<Rightarrow>
        (let new_user =
           \<lparr>user_id = next_id (map user_id (users d)),
            full_name = fn,
            phone_number = pn,
            email = em,
            aadhar_number = an,
            service_domain = get_default (ud_service_domain ud) '''',
            role = rl,
            level_of_employment = get_default (ud_level_of_employment ud) '''',
            date_of_joining = get_default (ud_date_of_joining ud) today,
            salary = get_default (ud_salary ud) 0,
            certifications = get_default (ud_certifications ud) '''',
            password_hash = hash_password hashpw salt pw\<rparr>
         in if em \<in> set (map email (users d)) \<or> an \<in> set (map aadhar_number (users d))
            then Inl IntegrityError
            else Inr (d\<lparr>users := users d @ [new_user]\<rparr>, new_user)))"

section \<open>Admin: register new user\<close>

text \<open>The values of the form's widgets; \<open>rf_role\<close> is the choice made in the role box.\<close>

record register_form =
  rf_full_name :: string
  rf_phone_number :: string
  rf_email :: string
  rf_aadhar_number :: string
  rf_service_domain :: string
  rf_role :: "string option"
  rf_level_of_employment :: string
  rf_date_of_joining :: pydate
  rf_salary :: real
  rf_certifications :: string
  rf_password :: string
  rf_confirm_password :: string

definition roles :: "string list" where
  "roles = [''staff'', ''client'', ''manager'', ''admin'']"

definition register_user ::
  "(string \<Rightarrow> string \<Rightarrow> string) \<Rightarrow> string \<Rightarrow> pydate \<Rightarrow> db \<Rightarrow> register_form \<Rightarrow> fstring option
     \<Rightarrow> error + (db \<times> elem list)" where
  "register_user hashpw salt today d f clicked =
     (let shown = [Header ''Register New User'', Button [Lit ''Register''] [Lit ''Register'']]
      in if button clicked [Lit ''Register''] then
           if rf_password f \<noteq> rf_confirm_password f then
             Inr (d, shown @ [Error ''Passwords do not match!''])
           else if get_user_by_email d (rf_email f) \<noteq> None then
             Inr (d, shown @ [Error ''A user with this email already exists!''])
           else
             (case create_user hashpw salt today d
                \<lparr>ud_full_name = Some (rf_full_name f),
                 ud_phone_number = Some (rf_phone_number f),
                 ud_email = Some (rf_email f),
                 ud_aadhar_number = Some (rf_aadhar_number f),
                 ud_service_domain = Some (rf_service_domain f),
                 ud_role = selectbox roles (rf_role f),
                 ud_level_of_employment = Some (rf_level_of_employment f),
                 ud_date_of_joining = Some (rf_date_of_joining f),
                 ud_salary = Some (rf_salary f),
                 ud_certifications = Some (rf_certifications f),
                 ud_password = Some (rf_password f)\<rparr> of
                Inl e \<Rightarrow> Inl e
              | Inr (d', u) \<Rightarrow> Inr (d', shown @ [Success [Lit ''User registered successfully!'']]))
         else Inr (d, shown))"

section \<open>Staff: attendance module\<close>

definition staff_attendance ::
  "db \<Rightarrow> pydate \<Rightarrow> pytime \<Rightarrow> nat \<Rightarrow> fstring option \<Rightarrow> db \<times> elem list" where
  "staff_attendance d today now uid clicked =
     (case List.find (\<lambda>r. att_user_id r = uid \<and> date r = today) (attendance d) of
        None \<Rightarrow>
          if button clicked [Lit ''Check In''] then
            (d\<lparr>attendance := attendance d @
                 [\<lparr>attendance_id = next_id (map attendance_id (attendance d)),
                   att_user_id = uid, date = today, check_in = now, check_out = None\<rparr>]\<rparr>,
             [Header ''Attendance'', Button [Lit ''Check In''] [Lit ''Check In''],
              Success [Lit ''Checked in successfully!''], Rerun])
          else (d, [Header ''Attendance'', Button [Lit ''Check In''] [Lit ''Check In'']])
      | Some attendance_record \<Rightarrow>
          if check_out attendance_record = None then
            if button clicked [Lit ''Check Out''] then
              (d\<lparr>attendance :=
                   map (\<lambda>r. if attendance_id r = attendance_id attendance_record
                             then attendance_record\<lparr>check_out := Some now\<rparr> else r)
                     (attendance d)\<rparr>,
               [Header ''Attendance'',
                Write [Lit ''Checked in at: '', TimeV (Some (check_in attendance_record))],
                Button [Lit ''Check Out''] [Lit ''Check Out''],
                Success [Lit ''Checked out successfully!''], Rerun])
            else
              (d, [Header ''Attendance'',
                   Write [Lit ''Checked in at: '', TimeV (Some (check_in attendance_record))],
                   Button [Lit ''Check Out''] [Lit ''Check Out'']])
          else
            (d, [Header ''Attendance'',
                 Write [Lit ''You have already checked in and out for today.''],
                 Write [Lit ''Check In: '', TimeV (Some (check_in attendance_record)),
                        Lit '' | Check Out: '', TimeV (check_out attendance_record)]]))"

section \<open>Client: service request module\<close>

definition service_types :: "string list" where
  "service_types =
     [''Housekeeping'', ''Pantry'', ''Car Driver'', ''Data Entry'', ''Electrician'',
      ''Plumber'', ''Gardener'']"

text \<open>
  \<^verbatim>\<open>client_service_request\<close>. The two \<^verbatim>\<open>DateTime\<close> columns take their default,
  \<^verbatim>\<open>datetime.utcnow\<close>, called once for each column when the row is inserted:
  \<open>utcnow_created\<close> and \<open>utcnow_updated\<close> are those two readings. A service type of
  \<^verbatim>\<open>None\<close> would violate \<^verbatim>\<open>nullable=False\<close>. The description is stored as typed,
  with no check.
\<close>

definition client_service_request ::
  "db \<Rightarrow> nat \<Rightarrow> pydatetime \<Rightarrow> pydatetime \<Rightarrow> string option \<Rightarrow> string \<Rightarrow> fstring option
     \<Rightarrow> error + (db \<times> elem list)" where
  "client_service_request d uid utcnow_created utcnow_updated service_type_choice
       description_text clicked =
     (let shown = [Header ''Raise Service Request'',
                   Button [Lit ''Submit Request''] [Lit ''Submit Request'']]
      in if button clicked [Lit ''Submit Request''] then
           (case selectbox service_types service_type_choice of
              None \<Rightarrow> Inl IntegrityError
            | Some st \<Rightarrow>
                Inr (d\<lparr>service_tickets := service_tickets d @
                        [\<lparr>ticket_id = next_id (map ticket_id (service_tickets d)),
                          client_id = uid,
                          service_type = st,
                          description = description_text,
                          assigned_to = None,
                          status = ''Pending'',
                          created_at = utcnow_created,
                          updated_at = utcnow_updated\<rparr>]\<rparr>,
                     shown @ [Success [Lit ''Service request submitted successfully!'']]))
         else Inr (d, shown))"

definition client_view_tickets :: "db \<Rightarrow> nat \<Rightarrow> elem list" where
  "client_view_tickets d uid =
     (let tickets = filter (\<lambda>t. client_id t = uid) (service_tickets d)
      in Header ''My Service Tickets'' #
         (if tickets \<noteq> [] then
            concat (map (\<lambda>ticket.
              [Write [Lit ''**Ticket ID:** '', Num (ticket_id ticket)],
               Write [Lit ''**Service Type:** '', Lit (service_type ticket)],
               Write [Lit ''**Description:** '', Lit (description ticket)],
               Write [Lit ''**Status:** '', Lit (status ticket)],
               Write [Lit ''---'']]) tickets)
          else [Write [Lit ''No service tickets found.'']]))"

section \<open>Manager: service ticket management\<close>

text \<open>
  The commit of a changed ticket is an \<^verbatim>\<open>UPDATE\<close> of the row with its primary key;
  \<^verbatim>\<open>onupdate=datetime.utcnow\<close> refreshes \<^verbatim>\<open>updated_at\<close>.
\<close>

definition commit_ticket :: "db \<Rightarrow> pydatetime \<Rightarrow> ServiceTicket \<Rightarrow> db" where
  "commit_ticket d utcnow ticket =
     d\<lparr>service_tickets :=
         map (\<lambda>t. if ticket_id t = ticket_id ticket then ticket\<lparr>updated_at := utcnow\<rparr> else t)
           (service_tickets d)\<rparr>"

text \<open>
  A dictionary built by a comprehension: its keys in the order of their first
  occurrence, each with the value bound to it last.
\<close>

definition dict_keys :: "('k \<times> 'v) list \<Rightarrow> 'k list" where
  "dict_keys ps = rev (remdups (rev (map fst ps)))"

definition dict_get :: "('k \<times> 'v) list \<Rightarrow> 'k \<Rightarrow> 'v option" where
  "dict_get ps k = map_of (rev ps) k"

definition staff_label :: "User \<Rightarrow> fstring" where
  "staff_label s = [Lit (full_name s), Lit '' (ID: '', Num (user_id s), Lit '')'']"

definition assign_label :: "ServiceTicket \<Rightarrow> fstring" where
  "assign_label ticket = [Lit ''Assign Ticket '', Num (ticket_id ticket)]"

definition assign_key :: "ServiceTicket \<Rightarrow> fstring" where
  "assign_key ticket = [Lit ''assign_'', Num (ticket_id ticket)]"

definition select_key :: "ServiceTicket \<Rightarrow> fstring" where
  "select_key ticket = [Lit ''ticket_'', Num (ticket_id ticket)]"

text \<open>
  The body of the \<^verbatim>\<open>for ticket in tickets\<close> loop of \<^verbatim>\<open>manager_service_tickets\<close>.
  \<open>choices\<close> gives, for the key of each select box, the choice made in it. The run
  ends at the first ticket whose button was clicked: with \<^verbatim>\<open>KeyError\<close> when the select
  box returned \<^verbatim>\<open>None\<close> (no staff user), with the commit and the rerun otherwise.
\<close>

fun manager_service_tickets_loop ::
  "db \<Rightarrow> pydatetime \<Rightarrow> (fstring \<Rightarrow> fstring option) \<Rightarrow> fstring option \<Rightarrow> ServiceTicket list
     \<Rightarrow> error + (db \<times> elem list)" where
  "manager_service_tickets_loop d utcnow choices clicked [] = Inr (d, [])"
| "manager_service_tickets_loop d utcnow choices clicked (ticket # rest) =
     (let shown =
            [Write [Lit ''**Ticket ID:** '', Num (ticket_id ticket)],
             Write [Lit ''**Client ID:** '', Num (client_id ticket)],
             Write [Lit ''**Service Type:** '', Lit (service_type ticket)],
             Write [Lit ''**Description:** '', Lit (description ticket)],
             Write [Lit ''**Status:** '', Lit (status ticket)]];
          staff_list = filter (\<lambda>u. role u = ''staff'') (users d);
          staff_options = map (\<lambda>s. (staff_label s, user_id s)) staff_list;
          selected_staff = selectbox (dict_keys staff_options) (choices (select_key ticket))
      in if status ticket = ''Pending'' \<and> button clicked (assign_key ticket) then
           (case selected_staff of
              None \<Rightarrow> Inl (KeyError None)
            | Some l \<Rightarrow>
                (case dict_get staff_options l of
                   None \<Rightarrow> Inl (KeyError (Some l))
                 | Some sid \<Rightarrow>
                     Inr (commit_ticket d utcnow
                            (ticket\<lparr>assigned_to := Some sid, status := ''In Progress''\<rparr>),
                          shown @
                          [Button (assign_label ticket) (assign_key ticket),
                           Success ([Lit ''Ticket '', Num (ticket_id ticket), Lit '' assigned to '']
                                    @ l @ [Lit ''!'']),
                           Rerun])))
         else
           (case manager_service_tickets_loop d utcnow choices clicked rest of
              Inl e \<Rightarrow> Inl e
            | Inr (d', out) \<Rightarrow>
                Inr (d', shown @
                         (if status ticket = ''Pending''
                          then [Button (assign_label ticket) (assign_key ticket)] else []) @
                         [Write [Lit ''---'']] @ out)))"

definition manager_service_tickets ::
  "db \<Rightarrow> pydatetime \<Rightarrow> (fstring \<Rightarrow> fstring option) \<Rightarrow> fstring option
     \<Rightarrow> error + (db \<times> elem list)" where
  "manager_service_tickets d utcnow choices clicked =
     (let tickets = service_tickets d
      in if tickets \<noteq> [] then
           (case manager_service_tickets_loop d utcnow choices clicked tickets of
              Inl e \<Rightarrow> Inl e
            | Inr (d', out) \<Rightarrow> Inr (d', Header ''Manage Service Tickets'' # out))
         else Inr (d, [Header ''Manage Service Tickets'',
                       Write [Lit ''No service tickets available.'']]))"

section \<open>Staff: view and update assigned tickets\<close>

definition complete_label :: "ServiceTicket \<Rightarrow> fstring" where
  "complete_label ticket = [Lit ''Mark Ticket '', Num (ticket_id ticket), Lit '' as Completed'']"

definition complete_key :: "ServiceTicket \<Rightarrow> fstring" where
  "complete_key ticket = [Lit ''complete_'', Num (ticket_id ticket)]"

fun staff_assigned_tickets_loop ::
  "db \<Rightarrow> pydatetime \<Rightarrow> fstring option \<Rightarrow> ServiceTicket list \<Rightarrow> db \<times> elem list" where
  "staff_assigned_tickets_loop d utcnow clicked [] = (d, [])"
| "staff_assigned_tickets_loop d utcnow clicked (ticket # rest) =
     (let shown =
            [Write [Lit ''**Ticket ID:** '', Num (ticket_id ticket)],
             Write [Lit ''**Service Type:** '', Lit (service_type ticket)],
             Write [Lit ''**Description:** '', Lit (description ticket)],
             Write [Lit ''**Status:** '', Lit (status ticket)]]
      in if status ticket \<noteq> ''Completed'' \<and> button clicked (complete_key ticket) then
           (commit_ticket d utcnow (ticket\<lparr>status := ''Completed''\<rparr>),
            shown @
            [Button (complete_label ticket) (complete_key ticket),
             Success [Lit ''Ticket '', Num (ticket_id ticket), Lit '' marked as Completed!''],
             Rerun])
         else
           (case staff_assigned_tickets_loop d utcnow clicked rest of
              (d', out) \<Rightarrow>
                (d', shown @
                     (if status ticket \<noteq> ''Completed''
                      then [Button (complete_label ticket) (complete_key ticket)] else []) @
                     [Write [Lit ''---'']] @ out)))"

definition staff_assigned_tickets ::
  "db \<Rightarrow> pydatetime \<Rightarrow> nat \<Rightarrow> fstring option \<Rightarrow> db \<times> elem list" where
  "staff_assigned_tickets d utcnow uid clicked =
     (let tickets = filter (\<lambda>t. assigned_to t = Some uid) (service_tickets d)
      in if tickets \<noteq> [] then
           (case staff_assigned_tickets_loop d utcnow clicked tickets of
              (d', out) \<Rightarrow> (d', Header ''My Assigned Tickets'' # out))
         else (d, [Header ''My Assigned Tickets'', Write [Lit ''No tickets assigned to you.'']]))"

section \<open>Admin and manager: attendance report\<close>

text \<open>
  The query of \<^verbatim>\<open>attendance_report\<close>: \<^verbatim>\<open>BETWEEN\<close> includes both ends, and the
  query has no \<^verbatim>\<open>order_by\<close>.
\<close>

definition attendance_between :: "db \<Rightarrow> pydate \<Rightarrow> pydate \<Rightarrow> Attendance list" where
  "attendance_between d start_date end_date =
     filter (\<lambda>r. start_date \<le> date r \<and> date r \<le> end_date) (attendance d)"

definition report_line :: "Attendance \<Rightarrow> elem" where
  "report_line rec =
     Write [Lit ''**User ID:** '', Num (att_user_id rec), Lit '' | **Date:** '', DateV (date rec),
            Lit '' | **Check In:** '', TimeV (Some (check_in rec)),
            Lit '' | **Check Out:** '', TimeV (check_out rec)]"

definition attendance_report :: "db \<Rightarrow> pydate \<Rightarrow> pydate \<Rightarrow> fstring option \<Rightarrow> elem list" where
  "attendance_report d start_date end_date clicked =
     (let shown = [Header ''Attendance Report'',
                   Button [Lit ''Generate Report''] [Lit ''Generate Report'']]
      in if button clicked [Lit ''Generate Report''] then
           (let records = attendance_between d start_date end_date
            in if records \<noteq> [] then shown @ map report_line records
               else shown @ [Write [Lit ''No attendance records found for the selected period.'']])
         else shown)"

section \<open>Sequences of operations\<close>

text \<open>
  One event is one run of a page (or of the seeding script, which calls
  \<^verbatim>\<open>create_user\<close> directly) with its inputs. A run that raises commits nothing. The
  events are not filtered by the role of the acting user, so what holds for all event
  lists holds for the runs the dashboard routes.
\<close>

datatype event =
    RegisterUser "string \<Rightarrow> string \<Rightarrow> string" string pydate register_form "fstring option"
  | CreateUser "string \<Rightarrow> string \<Rightarrow> string" string pydate user_data
  | StaffAttendance pydate pytime nat "fstring option"
  | ClientServiceRequest nat pydatetime pydatetime "string option" string "fstring option"
  | ManagerServiceTickets pydatetime "fstring \<Rightarrow> fstring option" "fstring option"
  | StaffAssignedTickets pydatetime nat "fstring option"
  | AttendanceReport pydate pydate "fstring option"

fun step :: "db \<Rightarrow> event \<Rightarrow> db" where
  "step d (RegisterUser hashpw salt today f clicked) =
     (case register_user hashpw salt today d f clicked of Inl e \<Rightarrow> d | Inr (d', out) \<Rightarrow> d')"
| "step d (CreateUser hashpw salt today ud) =
     (case create_user hashpw salt today d ud of Inl e \<Rightarrow> d | Inr (d', u) \<Rightarrow> d')"
| "step d (StaffAttendance today now uid clicked) =
     fst (staff_attendance d today now uid clicked)"
| "step d (ClientServiceRequest uid t1 t2 choice text clicked) =
     (case client_service_request d uid t1 t2 choice text clicked of
        Inl e \<Rightarrow> d | Inr (d', out) \<Rightarrow> d')"
| "step d (ManagerServiceTickets utcnow choices clicked) =
     (case manager_service_tickets d utcnow choices clicked of Inl e \<Rightarrow> d | Inr (d', out) \<Rightarrow> d')"
| "step d (StaffAssignedTickets utcnow uid clicked) =
     fst (staff_assigned_tickets d utcnow uid clicked)"
| "step d (AttendanceReport start_date end_date clicked) = d"

definition exec :: "event list \<Rightarrow> db \<Rightarrow> db" where
  "exec evs d = foldl step d evs"

text \<open>The databases a run goes through, the first one included.\<close>

fun states :: "db \<Rightarrow> event list \<Rightarrow> db list" where
  "states d [] = [d]"
| "states d (e # es) = d # states (step d e) es"

section \<open>Invariants and observations\<close>

subsection \<open>Attendance\<close>

text \<open>
  The attendance table keeps its primary key and holds at most one row for a user and a
  day: both are preserved by every step (lemma \<open>att_inv_step\<close>).
\<close>

definition att_key :: "Attendance \<Rightarrow> nat \<times> pydate" where
  "att_key r = (att_user_id r, date r)"

definition att_inv :: "db \<Rightarrow> bool" where
  "att_inv d = (distinct (map attendance_id (attendance d)) \<and> distinct (map att_key (attendance d)))"

subsection \<open>Tickets\<close>

text \<open>
  A ticket is well formed when it is unassigned and Pending, or assigned and In Progress
  or Completed. The ticket table keeps its primary key and holds well-formed tickets only
  (lemma \<open>ticket_inv_step\<close>). \<open>assigned_iff\<close> is the weaker statement of the
  specification: assigned exactly when In Progress or Completed.
\<close>

definition ticket_ok :: "ServiceTicket \<Rightarrow> bool" where
  "ticket_ok t =
     (if assigned_to t = None then status t = ''Pending''
      else status t = ''In Progress'' \<or> status t = ''Completed'')"

definition ticket_inv :: "db \<Rightarrow> bool" where
  "ticket_inv d =
     (distinct (map ticket_id (service_tickets d)) \<and> list_all ticket_ok (service_tickets d))"

definition assigned_iff :: "ServiceTicket \<Rightarrow> bool" where
  "assigned_iff t =
     ((assigned_to t \<noteq> None) = (status t = ''In Progress'' \<or> status t = ''Completed''))"

text \<open>
  The three ways in which a step changes the ticket table: a request appends a Pending,
  unassigned ticket with a fresh key; an assignment commits a Pending ticket as In
  Progress with a staff user; a completion commits a ticket of the acting user that is not
  Completed as Completed.
\<close>

definition raised :: "db \<Rightarrow> db \<Rightarrow> bool" where
  "raised d d' =
     (\<exists>t. d' = d\<lparr>service_tickets := service_tickets d @ [t]\<rparr> \<and>
          ticket_id t = next_id (map ticket_id (service_tickets d)) \<and>
          status t = ''Pending'' \<and> assigned_to t = None)"

definition assigned :: "db \<Rightarrow> db \<Rightarrow> bool" where
  "assigned d d' =
     (\<exists>t sid utcnow. t \<in> set (service_tickets d) \<and> status t = ''Pending'' \<and>
          d' = commit_ticket d utcnow (t\<lparr>assigned_to := Some sid, status := ''In Progress''\<rparr>))"

definition completed :: "db \<Rightarrow> db \<Rightarrow> bool" where
  "completed d d' =
     (\<exists>t uid utcnow. t \<in> set (service_tickets d) \<and> assigned_to t = Some uid \<and>
          status t \<noteq> ''Completed'' \<and>
          d' = commit_ticket d utcnow (t\<lparr>status := ''Completed''\<rparr>))"

text \<open>
  The status of ticket number \<open>i\<close> in a database (\<open>None\<close> while the ticket does not
  exist), the statuses of that ticket observed along a list of databases, and the fixed
  workflow. \<open>edge a b\<close> says that \<open>b\<close> is \<open>a\<close> or the next stage after \<open>a\<close>;
  \<open>rest_of_workflow\<close> is the workflow from a stage on.
\<close>

definition ticket_status :: "db \<Rightarrow> nat \<Rightarrow> string option" where
  "ticket_status d i = map_option status (List.find (\<lambda>t. ticket_id t = i) (service_tickets d))"

definition observed :: "nat \<Rightarrow> db list \<Rightarrow> string list" where
  "observed i ds = List.map_filter (\<lambda>d. ticket_status d i) ds"

definition workflow :: "string list" where
  "workflow = [''Pending'', ''In Progress'', ''Completed'']"

definition edge :: "string option \<Rightarrow> string option \<Rightarrow> bool" where
  "edge a b =
     (a = b \<or> (a = None \<and> b = Some ''Pending'') \<or>
      (a = Some ''Pending'' \<and> b = Some ''In Progress'') \<or>
      (a = Some ''In Progress'' \<and> b = Some ''Completed''))"

fun rest_of_workflow :: "string option \<Rightarrow> string list" where
  "rest_of_workflow None = workflow"
| "rest_of_workflow (Some s) = dropWhile (\<lambda>x. x \<noteq> s) workflow"

text \<open>The lines that the two ticket loops write for each ticket.\<close>

definition ticket_lines :: "ServiceTicket \<Rightarrow> elem list" where
  "ticket_lines ticket =
     [Write [Lit ''**Ticket ID:** '', Num (ticket_id ticket)],
      Write [Lit ''**Client ID:** '', Num (client_id ticket)],
      Write [Lit ''**Service Type:** '', Lit (service_type ticket)],
      Write [Lit ''**Description:** '', Lit (description ticket)],
      Write [Lit ''**Status:** '', Lit (status ticket)]]"

definition assigned_lines :: "ServiceTicket \<Rightarrow> elem list" where
  "assigned_lines ticket =
     [Write [Lit ''**Ticket ID:** '', Num (ticket_id ticket)],
      Write [Lit ''**Service Type:** '', Lit (service_type ticket)],
      Write [Lit ''**Description:** '', Lit (description ticket)],
      Write [Lit ''**Status:** '', Lit (status ticket)]]"

section \<open>Concrete scenarios\<close>

text \<open>
  The inputs on which the theorems are instantiated. A staff user is registered through
  the form, and a user with the role "superuser" is created by a direct call of
  \<^verbatim>\<open>create_user\<close>; \<open>demo_hashpw\<close> stands for \<^verbatim>\<open>bcrypt.hashpw\<close>.
\<close>

definition demo_hashpw :: "string \<Rightarrow> string \<Rightarrow> string" where
  "demo_hashpw password salt = salt @ password"

definition demo_form :: register_form where
  "demo_form =
     \<lparr>rf_full_name = ''Sam Staff'', rf_phone_number = ''5550001'', rf_email = ''sam@example.com'',
      rf_aadhar_number = ''111122223333'', rf_service_domain = ''Plumbing'', rf_role = Some ''staff'',
      rf_level_of_employment = ''L1'', rf_date_of_joining = 738000, rf_salary = 0,
      rf_certifications = '''', rf_password = ''secret'', rf_confirm_password = ''secret''\<rparr>"

definition demo_staff :: User where
  "demo_staff =
     \<lparr>user_id = 1, full_name = ''Sam Staff'', phone_number = ''5550001'',
      email = ''sam@example.com'', aadhar_number = ''111122223333'',
      service_domain = ''Plumbing'', role = ''staff'', level_of_employment = ''L1'',
      date_of_joining = 738000, salary = 0, certifications = '''',
      password_hash = ''saltsecret''\<rparr>"

definition demo_user_data :: user_data where
  "demo_user_data =
     \<lparr>ud_full_name = Some ''Root'', ud_phone_number = Some ''1234567890'',
      ud_email = Some ''root@example.com'', ud_aadhar_number = Some ''123456789012'',
      ud_service_domain = Some '''', ud_role = Some ''superuser'',
      ud_level_of_employment = Some '''', ud_date_of_joining = Some 738000,
      ud_salary = Some 0, ud_certifications = Some '''', ud_password = Some ''adminpassword''\<rparr>"

definition demo_root :: User where
  "demo_root =
     \<lparr>user_id = 1, full_name = ''Root'', phone_number = ''1234567890'',
      email = ''root@example.com'', aadhar_number = ''123456789012'',
      service_domain = '''', role = ''superuser'', level_of_employment = '''',
      date_of_joining = 738000, salary = 0, certifications = '''',
      password_hash = ''saltadminpassword''\<rparr>"

text \<open>
  Attendance: user 2 checks in at 900 on day 738000 (\<open>demo_open\<close>) and out at 1700
  (\<open>demo_closed\<close>); in \<open>demo_two_check_ins\<close> user 2 and then user 1 check in on the
  same day.
\<close>

definition demo_record :: Attendance where
  "demo_record =
     \<lparr>attendance_id = 1, att_user_id = 2, date = 738000, check_in = 900, check_out = None\<rparr>"

definition demo_open :: db where
  "demo_open = init_db\<lparr>attendance := [demo_record]\<rparr>"

definition demo_closed :: db where
  "demo_closed = init_db\<lparr>attendance := [demo_record\<lparr>check_out := Some 1700\<rparr>]\<rparr>"

definition demo_two_check_ins :: "event list" where
  "demo_two_check_ins =
     [StaffAttendance 738000 900 2 (Some [Lit ''Check In'']),
      StaffAttendance 738000 905 1 (Some [Lit ''Check In''])]"

text \<open>
  Tickets: client 7 raises a ticket for a plumber, the manager assigns it to staff user 1
  (the only staff user, so the default choice of the select box), and staff user 1
  completes it. \<open>demo_db1\<close> to \<open>demo_db4\<close> are the databases after each of the four
  events; \<open>demo_empty_ticket\<close> is the ticket raised with an empty description.
\<close>

definition demo_ticket :: ServiceTicket where
  "demo_ticket =
     \<lparr>ticket_id = 1, client_id = 7, service_type = ''Plumber'', description = ''Leaking tap'',
      assigned_to = None, status = ''Pending'', created_at = 100, updated_at = 101\<rparr>"

definition demo_ticket_ip :: ServiceTicket where
  "demo_ticket_ip = demo_ticket\<lparr>assigned_to := Some 1, status := ''In Progress'', updated_at := 200\<rparr>"

definition demo_empty_ticket :: ServiceTicket where
  "demo_empty_ticket =
     \<lparr>ticket_id = 1, client_id = 7, service_type = ''Plumber'', description = '''',
      assigned_to = None, status = ''Pending'', created_at = 100, updated_at = 101\<rparr>"

definition demo_register :: event where
  "demo_register = RegisterUser demo_hashpw ''salt'' 738000 demo_form (Some [Lit ''Register''])"

definition demo_raise :: event where
  "demo_raise =
     ClientServiceRequest 7 100 101 (Some ''Plumber'') ''Leaking tap'' (Some [Lit ''Submit Request''])"

definition demo_assign :: event where
  "demo_assign = ManagerServiceTickets 200 (\<lambda>k. None) (Some [Lit ''assign_'', Num 1])"

definition demo_complete :: event where
  "demo_complete = StaffAssignedTickets 300 1 (Some [Lit ''complete_'', Num 1])"

definition demo_db1 :: db where
  "demo_db1 = init_db\<lparr>users := [demo_staff]\<rparr>"

definition demo_db2 :: db where
  "demo_db2 = demo_db1\<lparr>service_tickets := [demo_ticket]\<rparr>"

definition demo_db3 :: db where
  "demo_db3 = demo_db1\<lparr>service_tickets :=
     [demo_ticket\<lparr>assigned_to := Some 1, status := ''In Progress'', updated_at := 200\<rparr>]\<rparr>"

definition demo_db4 :: db where
  "demo_db4 = demo_db1\<lparr>service_tickets :=
     [demo_ticket\<lparr>assigned_to := Some 1, status := ''Completed'', updated_at := 300\<rparr>]\<rparr>"

section \<open>Auxiliary lemmas\<close>

subsection \<open>Fresh keys and the attendance invariant\<close>

lemma fold_max_ge: "(a::nat) \<le> fold max ids a"
proof (induction ids arbitrary: a)
  case Nil
  show ?case by simp
next
  case (Cons x xs)
  have "a \<le> max x a" by simp
  also have "\<dots> \<le> fold max xs (max x a)" by (rule Cons.IH)
  finally show ?case by simp
qed

lemma fold_max_upper: "x \<in> set ids \<Longrightarrow> (x::nat) \<le> fold max ids a"
proof (induction ids arbitrary: a)
  case Nil
  then show ?case by simp
next
  case (Cons y ys)
  show ?case
  proof (cases "x = y")
    case True
    have "x \<le> max y a" using True by simp
    also have "\<dots> \<le> fold max ys (max y a)" by (rule fold_max_ge)
    finally show ?thesis by simp
  next
    case False
    with Cons.prems have "x \<in> set ys" by simp
    then show ?thesis using Cons.IH by simp
  qed
qed

lemma next_id_fresh: "next_id ids \<notin> set ids"
proof
  assume "next_id ids \<in> set ids"
  then have "next_id ids \<le> fold max ids 0" by (rule fold_max_upper)
  then show False by (simp add: next_id_def)
qed

lemma find_None_key:
  "List.find (\<lambda>r. att_user_id r = uid \<and> date r = today) rs = None \<Longrightarrow> (uid, today) \<notin> set (map att_key rs)"
  by (auto simp: find_None_iff att_key_def)

lemma distinct_key_eq:
  "distinct (map f rs) \<Longrightarrow> r \<in> set rs \<Longrightarrow> x \<in> set rs \<Longrightarrow> f x = f r \<Longrightarrow> x = r"
  by (auto simp: distinct_map dest: inj_onD)

lemma map_update_same:
  assumes "distinct (map f rs)" "r \<in> set rs" "g r' = g r"
  shows "map g (map (\<lambda>x. if f x = f r then r' else x) rs) = map g rs"
proof -
  have "g (if f x = f r then r' else x) = g x" if "x \<in> set rs" for x
    using distinct_key_eq [OF assms(1,2) that] assms(3) by auto
  then show ?thesis by simp
qed

lemma staff_attendance_att_inv:
  assumes "att_inv d"
  shows "att_inv (fst (staff_attendance d today now uid clicked))"
proof (cases "List.find (\<lambda>r. att_user_id r = uid \<and> date r = today) (attendance d)")
  case None
  then have "(uid, today) \<notin> set (map att_key (attendance d))" by (rule find_None_key)
  moreover have "next_id (map attendance_id (attendance d)) \<notin> set (map attendance_id (attendance d))"
    by (rule next_id_fresh)
  ultimately show ?thesis using assms None
    by (simp add: staff_attendance_def att_inv_def att_key_def)
next
  case (Some r)
  then have r: "r \<in> set (attendance d)" by (auto simp: find_Some_iff)
  let ?r' = "r\<lparr>check_out := Some now\<rparr>"
  let ?rs' = "map (\<lambda>x. if attendance_id x = attendance_id r then ?r' else x) (attendance d)"
  have d1: "distinct (map attendance_id (attendance d))" using assms by (simp add: att_inv_def)
  have "map attendance_id ?rs' = map attendance_id (attendance d)"
    by (rule map_update_same [OF d1 r]) simp
  moreover have "map att_key ?rs' = map att_key (attendance d)"
    by (rule map_update_same [OF d1 r]) (simp add: att_key_def)
  ultimately have "att_inv (d\<lparr>attendance := ?rs'\<rparr>)"
    using assms unfolding att_inv_def by (simp del: map_map)
  then show ?thesis using assms Some
    by (simp add: staff_attendance_def)
qed

subsection \<open>What one step does to the ticket table\<close>

lemma manager_loop_cases:
  "manager_service_tickets_loop d utcnow choices clicked ts = Inr (d', out) \<Longrightarrow>
     d' = d \<or>
     (\<exists>t sid. t \<in> set ts \<and> status t = ''Pending'' \<and> clicked = Some (assign_key t) \<and>
        d' = commit_ticket d utcnow (t\<lparr>assigned_to := Some sid, status := ''In Progress''\<rparr>))"
proof (induction ts arbitrary: out)
  case Nil
  then show ?case by simp
next
  case (Cons t ts)
  show ?case
  proof (cases "status t = ''Pending'' \<and> button clicked (assign_key t)")
    case True
    with Cons.prems show ?thesis
      by (auto simp: Let_def button_def split: option.splits)
  next
    case False
    with Cons.prems obtain out' where
      "manager_service_tickets_loop d utcnow choices clicked ts = Inr (d', out')"
      by (auto simp: Let_def split: sum.splits)
    from Cons.IH [OF this] show ?thesis by auto
  qed
qed

lemma staff_loop_cases:
  "staff_assigned_tickets_loop d utcnow clicked ts = (d', out) \<Longrightarrow>
     d' = d \<or>
     (\<exists>t. t \<in> set ts \<and> status t \<noteq> ''Completed'' \<and> clicked = Some (complete_key t) \<and>
        d' = commit_ticket d utcnow (t\<lparr>status := ''Completed''\<rparr>))"
proof (induction ts arbitrary: out)
  case Nil
  then show ?case by simp
next
  case (Cons t ts)
  show ?case
  proof (cases "status t \<noteq> ''Completed'' \<and> button clicked (complete_key t)")
    case True
    with Cons.prems show ?thesis
      by (auto simp: Let_def button_def)
  next
    case False
    with Cons.prems obtain out' where
      "staff_assigned_tickets_loop d utcnow clicked ts = (d', out')"
      by (auto simp: Let_def split: prod.splits)
    from Cons.IH [OF this] show ?thesis by auto
  qed
qed

lemma create_user_tickets:
  "create_user hashpw salt today d ud = Inr (d', u) \<Longrightarrow>
     service_tickets d' = service_tickets d \<and> attendance d' = attendance d"
  by (auto simp: create_user_def Let_def split: sum.splits if_splits)

lemma register_user_tickets:
  "register_user hashpw salt today d f clicked = Inr (d', out) \<Longrightarrow>
     service_tickets d' = service_tickets d \<and> attendance d' = attendance d"
  by (auto simp: register_user_def Let_def split: sum.splits if_splits dest: create_user_tickets)

lemma staff_attendance_tickets:
  "service_tickets (fst (staff_attendance d today now uid clicked)) = service_tickets d"
  by (simp add: staff_attendance_def split: option.splits)

lemma step_tickets_cases:
  "service_tickets (step d e) = service_tickets d \<or> raised d (step d e) \<or>
   assigned d (step d e) \<or> completed d (step d e)"
proof (cases e)
  case (RegisterUser hashpw salt today f clicked)
  then show ?thesis
    by (auto split: sum.splits dest: register_user_tickets)
next
  case (CreateUser hashpw salt today ud)
  then show ?thesis
    by (auto split: sum.splits dest: create_user_tickets)
next
  case (StaffAttendance today now uid clicked)
  then show ?thesis by (simp add: staff_attendance_tickets)
next
  case (ClientServiceRequest uid t1 t2 choice descr clicked)
  then show ?thesis
    by (auto simp: client_service_request_def raised_def Let_def split: option.splits)
next
  case (ManagerServiceTickets utcnow choices clicked)
  show ?thesis
  proof (cases "manager_service_tickets d utcnow choices clicked")
    case (Inl err)
    with ManagerServiceTickets show ?thesis by simp
  next
    case (Inr res)
    obtain d' out where res: "res = (d', out)" by (cases res)
    have d': "step d e = d'" using ManagerServiceTickets Inr res by simp
    have "d' = d \<or> (\<exists>out'. manager_service_tickets_loop d utcnow choices clicked (service_tickets d) = Inr (d', out'))"
      using Inr res by (auto simp: manager_service_tickets_def Let_def split: if_splits sum.splits)
    then show ?thesis
    proof
      assume "d' = d"
      then show ?thesis using d' by simp
    next
      assume "\<exists>out'. manager_service_tickets_loop d utcnow choices clicked (service_tickets d) = Inr (d', out')"
      then obtain out' where
        "manager_service_tickets_loop d utcnow choices clicked (service_tickets d) = Inr (d', out')" ..
      from manager_loop_cases [OF this] show ?thesis
        unfolding d' assigned_def by blast
    qed
  qed
next
  case (StaffAssignedTickets utcnow uid clicked)
  obtain d' out where res: "staff_assigned_tickets d utcnow uid clicked = (d', out)"
    by (cases "staff_assigned_tickets d utcnow uid clicked")
  have d': "step d e = d'" using StaffAssignedTickets res by simp
  let ?ts = "filter (\<lambda>t. assigned_to t = Some uid) (service_tickets d)"
  have "d' = d \<or> (\<exists>out'. staff_assigned_tickets_loop d utcnow clicked ?ts = (d', out'))"
    using res by (auto simp: staff_assigned_tickets_def Let_def split: if_splits prod.splits)
  then show ?thesis
  proof
    assume "d' = d"
    then show ?thesis using d' by simp
  next
    assume "\<exists>out'. staff_assigned_tickets_loop d utcnow clicked ?ts = (d', out')"
    then obtain out' where "staff_assigned_tickets_loop d utcnow clicked ?ts = (d', out')" ..
    from staff_loop_cases [OF this] have "d' = d \<or> completed d d'"
      unfolding completed_def by auto
    then show ?thesis using d' by auto
  qed
next
  case (AttendanceReport s e' clicked)
  then show ?thesis by simp
qed

subsection \<open>The ticket invariant and the status edges\<close>

lemma find_snoc:
  "List.find P (xs @ [t]) =
     (case List.find P xs of None \<Rightarrow> (if P t then Some t else None) | Some x \<Rightarrow> Some x)"
  by (induction xs) auto

lemma find_update:
  "f r' = k \<Longrightarrow>
   List.find (\<lambda>x. f x = i) (map (\<lambda>x. if f x = k then r' else x) rs) =
     (if i = k then map_option (\<lambda>_. r') (List.find (\<lambda>x. f x = k) rs)
      else List.find (\<lambda>x. f x = i) rs)"
  by (induction rs) auto

lemma find_distinct:
  "distinct (map f rs) \<Longrightarrow> r \<in> set rs \<Longrightarrow> List.find (\<lambda>x. f x = f r) rs = Some r"
  by (induction rs) (auto simp: image_iff)

lemma find_fresh: "k \<notin> set (map f rs) \<Longrightarrow> List.find (\<lambda>x. f x = k) rs = None"
  by (auto simp: find_None_iff)

lemma commit_ticket_ids:
  assumes "distinct (map ticket_id (service_tickets d))" "t \<in> set (service_tickets d)"
    "ticket_id t' = ticket_id t"
  shows "map ticket_id (service_tickets (commit_ticket d utcnow t')) = map ticket_id (service_tickets d)"
proof -
  have "map ticket_id (map (\<lambda>x. if ticket_id x = ticket_id t then t'\<lparr>updated_at := utcnow\<rparr> else x)
          (service_tickets d)) = map ticket_id (service_tickets d)"
    by (rule map_update_same [OF assms(1,2)]) (simp add: assms(3))
  then show ?thesis using assms(3) by (simp add: commit_ticket_def del: map_map)
qed

lemma commit_ticket_set:
  "set (service_tickets (commit_ticket d utcnow t')) \<subseteq>
     insert (t'\<lparr>updated_at := utcnow\<rparr>) (set (service_tickets d))"
  by (auto simp: commit_ticket_def)

lemma commit_ticket_status:
  assumes "distinct (map ticket_id (service_tickets d))" "t \<in> set (service_tickets d)"
    "ticket_id t' = ticket_id t"
  shows "ticket_status (commit_ticket d utcnow t') i =
           (if i = ticket_id t then Some (status t') else ticket_status d i)"
proof -
  have "List.find (\<lambda>x. ticket_id x = ticket_id t) (service_tickets d) = Some t"
    by (rule find_distinct [OF assms(1,2)])
  then show ?thesis
    using find_update [of ticket_id "t'\<lparr>updated_at := utcnow\<rparr>" "ticket_id t" i "service_tickets d"] assms(3)
    by (simp add: ticket_status_def commit_ticket_def)
qed

lemma ticket_status_old:
  assumes "distinct (map ticket_id (service_tickets d))" "t \<in> set (service_tickets d)"
  shows "ticket_status d (ticket_id t) = Some (status t)"
  using find_distinct [OF assms] by (simp add: ticket_status_def)

lemma ticket_inv_commit:
  assumes "ticket_inv d" "t \<in> set (service_tickets d)" "ticket_id t' = ticket_id t" "ticket_ok t'"
  shows "ticket_inv (commit_ticket d utcnow t')"
proof -
  have dist: "distinct (map ticket_id (service_tickets d))" using assms(1) by (simp add: ticket_inv_def)
  have "distinct (map ticket_id (service_tickets (commit_ticket d utcnow t')))"
    using commit_ticket_ids [OF dist assms(2,3)] dist by simp
  moreover have "ticket_ok (t'\<lparr>updated_at := utcnow\<rparr>)" using assms(4) by (simp add: ticket_ok_def)
  then have "list_all ticket_ok (service_tickets (commit_ticket d utcnow t'))"
    using assms(1) commit_ticket_set [of d utcnow t']
    by (auto simp: ticket_inv_def list_all_iff)
  ultimately show ?thesis by (simp add: ticket_inv_def)
qed

lemma ticket_inv_step:
  assumes "ticket_inv d"
  shows "ticket_inv (step d e)"
proof -
  have dist: "distinct (map ticket_id (service_tickets d))" using assms by (simp add: ticket_inv_def)
  from step_tickets_cases [of d e] show ?thesis
  proof (elim disjE)
    assume "service_tickets (step d e) = service_tickets d"
    then show ?thesis using assms by (simp add: ticket_inv_def)
  next
    assume "raised d (step d e)"
    then obtain t where t: "step d e = d\<lparr>service_tickets := service_tickets d @ [t]\<rparr>"
      "ticket_id t = next_id (map ticket_id (service_tickets d))"
      "status t = ''Pending''" "assigned_to t = None"
      unfolding raised_def by blast
    have "ticket_id t \<notin> set (map ticket_id (service_tickets d))"
      unfolding t(2) by (rule next_id_fresh)
    then show ?thesis using assms t by (simp add: ticket_inv_def ticket_ok_def)
  next
    assume "assigned d (step d e)"
    then obtain t sid utcnow where t: "t \<in> set (service_tickets d)" "status t = ''Pending''"
      "step d e = commit_ticket d utcnow (t\<lparr>assigned_to := Some sid, status := ''In Progress''\<rparr>)"
      unfolding assigned_def by blast
    show ?thesis unfolding t(3)
      by (rule ticket_inv_commit [OF assms t(1)]) (simp_all add: ticket_ok_def)
  next
    assume "completed d (step d e)"
    then obtain t uid utcnow where t: "t \<in> set (service_tickets d)" "assigned_to t = Some uid"
      "status t \<noteq> ''Completed''"
      "step d e = commit_ticket d utcnow (t\<lparr>status := ''Completed''\<rparr>)"
      unfolding completed_def by blast
    show ?thesis unfolding t(4)
      by (rule ticket_inv_commit [OF assms t(1)]) (simp_all add: ticket_ok_def t(2))
  qed
qed

lemma step_edge:
  assumes "ticket_inv d"
  shows "edge (ticket_status d i) (ticket_status (step d e) i)"
proof -
  have dist: "distinct (map ticket_id (service_tickets d))" using assms by (simp add: ticket_inv_def)
  from step_tickets_cases [of d e] show ?thesis
  proof (elim disjE)
    assume "service_tickets (step d e) = service_tickets d"
    then show ?thesis by (simp add: ticket_status_def edge_def)
  next
    assume "raised d (step d e)"
    then obtain t where t: "step d e = d\<lparr>service_tickets := service_tickets d @ [t]\<rparr>"
      "ticket_id t = next_id (map ticket_id (service_tickets d))"
      "status t = ''Pending''" "assigned_to t = None"
      unfolding raised_def by blast
    show ?thesis unfolding t(1)
      by (simp add: ticket_status_def find_snoc edge_def t(3) split: option.splits)
  next
    assume "assigned d (step d e)"
    then obtain t sid utcnow where t: "t \<in> set (service_tickets d)" "status t = ''Pending''"
      "step d e = commit_ticket d utcnow (t\<lparr>assigned_to := Some sid, status := ''In Progress''\<rparr>)"
      unfolding assigned_def by blast
    show ?thesis unfolding t(3)
      using ticket_status_old [OF dist t(1)] t(2)
      by (simp add: commit_ticket_status [OF dist t(1)] edge_def)
  next
    assume "completed d (step d e)"
    then obtain t uid utcnow where t: "t \<in> set (service_tickets d)" "assigned_to t = Some uid"
      "status t \<noteq> ''Completed''"
      "step d e = commit_ticket d utcnow (t\<lparr>status := ''Completed''\<rparr>)"
      unfolding completed_def by blast
    have "ticket_ok t" using assms t(1) by (simp add: ticket_inv_def list_all_iff)
    then have "status t = ''In Progress''" using t(2,3) by (simp add: ticket_ok_def)
    then show ?thesis unfolding t(4)
      using ticket_status_old [OF dist t(1)]
      by (simp add: commit_ticket_status [OF dist t(1)] edge_def)
  qed
qed

lemma ticket_inv_init: "ticket_inv init_db"
  by (simp add: ticket_inv_def init_db_def)

lemma ticket_inv_foldl: "ticket_inv d \<Longrightarrow> ticket_inv (foldl step d evs)"
  by (induction evs arbitrary: d) (simp_all add: ticket_inv_step)

lemma ticket_inv_exec: "ticket_inv (exec evs init_db)"
  unfolding exec_def by (rule ticket_inv_foldl [OF ticket_inv_init])

subsection \<open>Status histories\<close>

lemma observed_Cons:
  "observed i (d # ds) =
     (case ticket_status d i of None \<Rightarrow> observed i ds | Some s \<Rightarrow> s # observed i ds)"
  by (simp add: observed_def map_filter_simps split: option.splits)

lemma states_Cons: "\<exists>ds. states d evs = d # ds"
  by (cases evs) simp_all

lemma ticket_status_workflow:
  assumes "ticket_inv d" "ticket_status d i = Some s"
  shows "s \<in> set workflow"
proof -
  from assms(2) obtain t where "List.find (\<lambda>t. ticket_id t = i) (service_tickets d) = Some t"
    and s: "s = status t"
    by (auto simp: ticket_status_def)
  then have "t \<in> set (service_tickets d)" by (auto simp: find_Some_iff)
  then have "ticket_ok t" using assms(1) by (simp add: ticket_inv_def list_all_iff)
  then show ?thesis unfolding s by (auto simp: ticket_ok_def workflow_def split: if_splits)
qed

lemma rest_of_workflow_hd:
  "s \<in> set workflow \<Longrightarrow> \<exists>r. rest_of_workflow (Some s) = s # r"
  by (auto simp: workflow_def)

lemma rest_of_workflow_edge:
  assumes "edge (Some s) (Some s')" "s \<noteq> s'"
  shows "rest_of_workflow (Some s) = s # rest_of_workflow (Some s')"
proof -
  from assms have "(s = ''Pending'' \<and> s' = ''In Progress'') \<or> (s = ''In Progress'' \<and> s' = ''Completed'')"
    by (simp add: edge_def)
  then show ?thesis
  proof
    assume "s = ''Pending'' \<and> s' = ''In Progress''"
    then show ?thesis by (simp add: workflow_def)
  next
    assume "s = ''In Progress'' \<and> s' = ''Completed''"
    then show ?thesis by (simp add: workflow_def)
  qed
qed

lemma edge_None: "edge None b \<Longrightarrow> rest_of_workflow b = workflow"
  by (auto simp: edge_def workflow_def)

lemma edge_Some: "edge (Some s) b \<Longrightarrow> \<exists>s'. b = Some s'"
  by (auto simp: edge_def)

lemma history_prefix_aux:
  assumes "ticket_inv d"
  shows "prefix (remdups_adj (observed i (states d evs))) (rest_of_workflow (ticket_status d i))"
  using assms
proof (induction evs arbitrary: d)
  case Nil
  show ?case
  proof (cases "ticket_status d i")
    case None
    then show ?thesis by (simp add: observed_Cons observed_def map_filter_simps)
  next
    case (Some s)
    then have "s \<in> set workflow" by (rule ticket_status_workflow [OF Nil])
    then obtain r where "rest_of_workflow (Some s) = s # r"
      using rest_of_workflow_hd by blast
    then show ?thesis using Some
      by (simp add: observed_Cons observed_def map_filter_simps)
  qed
next
  case (Cons e es)
  let ?d' = "step d e"
  have inv': "ticket_inv ?d'" by (rule ticket_inv_step [OF Cons.prems])
  have IH: "prefix (remdups_adj (observed i (states ?d' es))) (rest_of_workflow (ticket_status ?d' i))"
    by (rule Cons.IH [OF inv'])
  have e: "edge (ticket_status d i) (ticket_status ?d' i)" by (rule step_edge [OF Cons.prems])
  obtain ds where ds: "states ?d' es = ?d' # ds" using states_Cons by blast
  show ?case
  proof (cases "ticket_status d i")
    case None
    then have "rest_of_workflow (ticket_status ?d' i) = workflow" using e edge_None by simp
    then show ?thesis using IH None by (simp add: observed_Cons)
  next
    case (Some s)
    then obtain s' where s': "ticket_status ?d' i = Some s'" using e edge_Some by fastforce
    have obs: "observed i (states ?d' es) = s' # observed i ds"
      by (simp add: ds observed_Cons s')
    have IH': "prefix (remdups_adj (s' # observed i ds)) (rest_of_workflow (Some s'))"
      using IH by (simp only: obs s')
    have lhs: "observed i (states d (e # es)) = s # s' # observed i ds"
      by (simp add: observed_Cons Some obs)
    show ?thesis
    proof (cases "s = s'")
      case True
      then show ?thesis using IH' unfolding lhs Some by simp
    next
      case False
      have "edge (Some s) (Some s')" using e by (simp only: Some s')
      then have "rest_of_workflow (Some s) = s # rest_of_workflow (Some s')"
        using False by (rule rest_of_workflow_edge)
      moreover have "remdups_adj (s # s' # observed i ds) = s # remdups_adj (s' # observed i ds)"
        using False by simp
      ultimately show ?thesis using IH' unfolding lhs Some by (simp only: prefix_code)
    qed
  qed
qed

lemma ticket_status_init: "ticket_status init_db i = None"
  by (simp add: ticket_status_def init_db_def)

lemma states_nth_0: "states d evs ! 0 = d"
  by (cases evs) simp_all

lemma no_skip_aux:
  assumes "ticket_inv d" "k < length evs"
  shows "edge (ticket_status (states d evs ! k) i) (ticket_status (states d evs ! Suc k) i)"
  using assms
proof (induction evs arbitrary: d k)
  case Nil
  then show ?case by simp
next
  case (Cons e es)
  show ?case
  proof (cases k)
    case 0
    then show ?thesis using step_edge [OF Cons.prems(1), of i e] by (simp add: states_nth_0)
  next
    case (Suc k')
    then have "k' < length es" using Cons.prems(2) by simp
    from Cons.IH [OF ticket_inv_step [OF Cons.prems(1)] this] show ?thesis
      using Suc by simp
  qed
qed

subsection \<open>The ticket loops\<close>

lemma manager_loop_skip:
  assumes "\<not> (status t = ''Pending'' \<and> clicked = Some (assign_key t))"
    "manager_service_tickets_loop d utcnow choices clicked ts = Inr (d', out)"
  shows "manager_service_tickets_loop d utcnow choices clicked (t # ts) =
           Inr (d', ticket_lines t @
                    (if status t = ''Pending'' then [Button (assign_label t) (assign_key t)] else []) @
                    [Write [Lit ''---'']] @ out)"
proof -
  have c: "(status t = ''Pending'' \<and> button clicked (assign_key t)) = False"
    using assms(1) by (simp add: button_def)
  show ?thesis by (simp add: Let_def c assms(2) ticket_lines_def)
qed

lemma manager_loop_idle:
  assumes "\<forall>x\<in>set ts. \<not> (status x = ''Pending'' \<and> clicked = Some (assign_key x))"
  shows "\<exists>out. manager_service_tickets_loop d utcnow choices clicked ts = Inr (d, out) \<and>
           Rerun \<notin> set out \<and> (\<forall>m. Success m \<notin> set out) \<and>
           (\<forall>l k. Button l k \<in> set out \<longrightarrow> (\<exists>x\<in>set ts. status x = ''Pending'' \<and> k = assign_key x))"
  using assms
proof (induction ts)
  case Nil
  then show ?case by simp
next
  case (Cons t ts)
  then obtain out where out: "manager_service_tickets_loop d utcnow choices clicked ts = Inr (d, out)"
    "Rerun \<notin> set out" "\<forall>m. Success m \<notin> set out"
    "\<forall>l k. Button l k \<in> set out \<longrightarrow> (\<exists>x\<in>set ts. status x = ''Pending'' \<and> k = assign_key x)"
    by auto
  have idle: "\<not> (status t = ''Pending'' \<and> clicked = Some (assign_key t))"
    using Cons.prems by simp
  let ?out = "ticket_lines t @
                    (if status t = ''Pending'' then [Button (assign_label t) (assign_key t)] else []) @
                    [Write [Lit ''---'']] @ out"
  have run: "manager_service_tickets_loop d utcnow choices clicked (t # ts) = Inr (d, ?out)"
    by (rule manager_loop_skip [OF idle out(1)])
  have "Rerun \<notin> set ?out" using out(2) by (simp add: ticket_lines_def)
  moreover have "\<forall>m. Success m \<notin> set ?out" using out(3) by (simp add: ticket_lines_def)
  moreover have "\<forall>l k. Button l k \<in> set ?out \<longrightarrow>
      (\<exists>x\<in>set (t # ts). status x = ''Pending'' \<and> k = assign_key x)"
    using out(4) by (auto simp: ticket_lines_def)
  ultimately show ?case using run by blast
qed

lemma assign_key_inj: "assign_key x = assign_key t \<Longrightarrow> ticket_id x = ticket_id t"
  by (simp add: assign_key_def)

lemma complete_key_inj: "complete_key x = complete_key t \<Longrightarrow> ticket_id x = ticket_id t"
  by (simp add: complete_key_def)

lemma commit_ticket_other:
  assumes "distinct (map ticket_id (service_tickets d))" "t \<in> set (service_tickets d)"
    "x \<in> set (service_tickets d)" "x \<noteq> t" "ticket_id t' = ticket_id x"
  shows "t \<in> set (service_tickets (commit_ticket d utcnow t'))"
proof -
  have "ticket_id t \<noteq> ticket_id x"
    using distinct_key_eq [OF assms(1) assms(3) assms(2)] assms(4) by auto
  then show ?thesis using assms(2,5) by (auto simp: commit_ticket_def image_iff)
qed

lemma staff_loop_skip:
  assumes "\<not> (status t \<noteq> ''Completed'' \<and> clicked = Some (complete_key t))"
    "staff_assigned_tickets_loop d utcnow clicked ts = (d', out)"
  shows "staff_assigned_tickets_loop d utcnow clicked (t # ts) =
           (d', assigned_lines t @
                (if status t \<noteq> ''Completed'' then [Button (complete_label t) (complete_key t)] else []) @
                [Write [Lit ''---'']] @ out)"
proof -
  have c: "(status t \<noteq> ''Completed'' \<and> button clicked (complete_key t)) = False"
    using assms(1) by (simp add: button_def)
  show ?thesis by (simp add: Let_def c assms(2) assigned_lines_def)
qed

lemma staff_loop_hit:
  assumes "status t \<noteq> ''Completed''"
  shows "staff_assigned_tickets_loop d utcnow (Some (complete_key t)) (t # ts) =
           (commit_ticket d utcnow (t\<lparr>status := ''Completed''\<rparr>),
            assigned_lines t @
            [Button (complete_label t) (complete_key t),
             Success [Lit ''Ticket '', Num (ticket_id t), Lit '' marked as Completed!''],
             Rerun])"
proof -
  have c: "(status t \<noteq> ''Completed'' \<and> button (Some (complete_key t)) (complete_key t)) = True"
    using assms by (simp add: button_def)
  show ?thesis by (simp add: Let_def c assigned_lines_def)
qed

lemma staff_loop_idle:
  assumes "\<forall>x\<in>set ts. \<not> (status x \<noteq> ''Completed'' \<and> clicked = Some (complete_key x))"
  shows "\<exists>out. staff_assigned_tickets_loop d utcnow clicked ts = (d, out) \<and>
           Rerun \<notin> set out \<and> (\<forall>m. Success m \<notin> set out)"
  using assms
proof (induction ts)
  case Nil
  then show ?case by simp
next
  case (Cons t ts)
  then obtain out where out: "staff_assigned_tickets_loop d utcnow clicked ts = (d, out)"
    "Rerun \<notin> set out" "\<forall>m. Success m \<notin> set out"
    by auto
  have idle: "\<not> (status t \<noteq> ''Completed'' \<and> clicked = Some (complete_key t))"
    using Cons.prems by simp
  let ?out = "assigned_lines t @
                (if status t \<noteq> ''Completed'' then [Button (complete_label t) (complete_key t)] else []) @
                [Write [Lit ''---'']] @ out"
  have run: "staff_assigned_tickets_loop d utcnow clicked (t # ts) = (d, ?out)"
    by (rule staff_loop_skip [OF idle out(1)])
  have "Rerun \<notin> set ?out" using out(2) by (simp add: assigned_lines_def)
  moreover have "\<forall>m. Success m \<notin> set ?out" using out(3) by (simp add: assigned_lines_def)
  ultimately show ?case using run by blast
qed

lemma staff_loop_fire:
  assumes "distinct (map ticket_id ts)" "t \<in> set ts" "status t \<noteq> ''Completed''"
  shows "\<exists>out. staff_assigned_tickets_loop d utcnow (Some (complete_key t)) ts =
             (commit_ticket d utcnow (t\<lparr>status := ''Completed''\<rparr>), out) \<and>
           Success [Lit ''Ticket '', Num (ticket_id t), Lit '' marked as Completed!''] \<in> set out \<and>
           Rerun \<in> set out"
  using assms
proof (induction ts)
  case Nil
  then show ?case by simp
next
  case (Cons x ts)
  show ?case
  proof (cases "x = t")
    case True
    show ?thesis unfolding True staff_loop_hit [OF Cons.prems(3)] by simp
  next
    case False
    then have t: "t \<in> set ts" using Cons.prems(2) by simp
    have "ticket_id x \<noteq> ticket_id t" using Cons.prems(1) t by (auto simp: image_iff)
    then have idle: "\<not> (status x \<noteq> ''Completed'' \<and> Some (complete_key t) = Some (complete_key x))"
      by (auto simp: complete_key_def)
    have "distinct (map ticket_id ts)" using Cons.prems(1) by simp
    from Cons.IH [OF this t Cons.prems(3)]
    obtain out where out: "staff_assigned_tickets_loop d utcnow (Some (complete_key t)) ts =
             (commit_ticket d utcnow (t\<lparr>status := ''Completed''\<rparr>), out)"
      "Success [Lit ''Ticket '', Num (ticket_id t), Lit '' marked as Completed!''] \<in> set out"
      "Rerun \<in> set out"
      by blast
    show ?thesis unfolding staff_loop_skip [OF idle out(1)] using out(2,3) by simp
  qed
qed

lemma manager_page_nonempty:
  "service_tickets d \<noteq> [] \<Longrightarrow>
   manager_service_tickets d utcnow choices clicked =
     (case manager_service_tickets_loop d utcnow choices clicked (service_tickets d) of
        Inl e \<Rightarrow> Inl e
      | Inr (d', out) \<Rightarrow> Inr (d', Header ''Manage Service Tickets'' # out))"
  by (simp add: manager_service_tickets_def Let_def)

lemma manager_page_loop:
  assumes "service_tickets d \<noteq> []"
    "manager_service_tickets d utcnow choices clicked = Inr (d', out)"
  shows "\<exists>out'. manager_service_tickets_loop d utcnow choices clicked (service_tickets d) = Inr (d', out')"
proof (cases "manager_service_tickets_loop d utcnow choices clicked (service_tickets d)")
  case (Inl e)
  then show ?thesis using assms(2) unfolding manager_page_nonempty [OF assms(1)] by simp
next
  case (Inr res)
  obtain d2 out2 where res: "res = (d2, out2)" by (cases res)
  have "d2 = d'" using assms(2) unfolding manager_page_nonempty [OF assms(1)] Inr res by simp
  then show ?thesis using Inr res by simp
qed

lemma assign_refused_aux:
  assumes "distinct (map ticket_id (service_tickets d))" "t \<in> set (service_tickets d)"
    "status t \<noteq> ''Pending''"
  shows "\<exists>out. manager_service_tickets d utcnow choices (Some (assign_key t)) = Inr (d, out) \<and>
            Rerun \<notin> set out \<and> (\<forall>m. Success m \<notin> set out) \<and>
            (\<forall>l. Button l (assign_key t) \<notin> set out)"
proof -
  have same: "x = t" if "x \<in> set (service_tickets d)" "assign_key t = assign_key x" for x
  proof -
    have "ticket_id x = ticket_id t" using that(2) by (simp add: assign_key_def)
    then show ?thesis by (rule distinct_key_eq [OF assms(1,2) that(1)])
  qed
  have idle: "\<forall>x\<in>set (service_tickets d). \<not> (status x = ''Pending'' \<and> Some (assign_key t) = Some (assign_key x))"
    using same assms(3) by blast
  from manager_loop_idle [OF idle, of d utcnow choices]
  obtain out where out: "manager_service_tickets_loop d utcnow choices (Some (assign_key t)) (service_tickets d) = Inr (d, out)"
    "Rerun \<notin> set out" "\<forall>m. Success m \<notin> set out"
    "\<forall>l k. Button l k \<in> set out \<longrightarrow> (\<exists>x\<in>set (service_tickets d). status x = ''Pending'' \<and> k = assign_key x)"
    by blast
  have nb: "\<forall>l. Button l (assign_key t) \<notin> set out"
    using out(4) same assms(3) by blast
  have ne: "service_tickets d \<noteq> []" using assms(2) by auto
  let ?out = "Header ''Manage Service Tickets'' # out"
  have "manager_service_tickets d utcnow choices (Some (assign_key t)) = Inr (d, ?out)"
    unfolding manager_page_nonempty [OF ne] out(1) by simp
  moreover have "Rerun \<notin> set ?out" using out(2) by simp
  moreover have "\<forall>m. Success m \<notin> set ?out" using out(3) by simp
  moreover have "\<forall>l. Button l (assign_key t) \<notin> set ?out" using nb by simp
  ultimately show ?thesis by blast
qed

lemma manager_keeps_non_pending:
  assumes "distinct (map ticket_id (service_tickets d))" "t \<in> set (service_tickets d)"
    "status t \<noteq> ''Pending''"
    "manager_service_tickets d utcnow choices clicked = Inr (d', out)"
  shows "t \<in> set (service_tickets d')"
proof -
  have ne: "service_tickets d \<noteq> []" using assms(2) by auto
  from manager_page_loop [OF ne assms(4)] obtain out' where
    "manager_service_tickets_loop d utcnow choices clicked (service_tickets d) = Inr (d', out')" ..
  from manager_loop_cases [OF this] show ?thesis
  proof
    assume "d' = d"
    then show ?thesis using assms(2) by simp
  next
    assume "\<exists>x sid. x \<in> set (service_tickets d) \<and> status x = ''Pending'' \<and>
        clicked = Some (assign_key x) \<and>
        d' = commit_ticket d utcnow (x\<lparr>assigned_to := Some sid, status := ''In Progress''\<rparr>)"
    then obtain x sid where x: "x \<in> set (service_tickets d)" "status x = ''Pending''"
      "d' = commit_ticket d utcnow (x\<lparr>assigned_to := Some sid, status := ''In Progress''\<rparr>)"
      by blast
    have neq: "x \<noteq> t" using x(2) assms(3) by auto
    show ?thesis unfolding x(3)
      by (rule commit_ticket_other [OF assms(1,2) x(1) neq]) simp
  qed
qed

subsection \<open>User creation\<close>

lemma subscript_Inr: "subscript k v = Inr x \<longleftrightarrow> v = Some x"
  by (simp add: subscript_def split: option.splits)

lemma subscript_Inl: "subscript k v = Inl e \<longleftrightarrow> v = None \<and> e = KeyError (Some [Lit k])"
  by (auto simp: subscript_def split: option.splits)

lemma create_user_role:
  assumes "create_user hashpw salt today d ud = Inr (d', u)"
  shows "users d' = users d @ [u] \<and> ud_role ud = Some (role u)"
proof -
  from assms obtain fn pn em an rl pw where
    "ud_role ud = Some rl"
    "(let new_user =
           \<lparr>user_id = next_id (map user_id (users d)),
            full_name = fn,
            phone_number = pn,
            email = em,
            aadhar_number = an,
            service_domain = get_default (ud_service_domain ud) '''',
            role = rl,
            level_of_employment = get_default (ud_level_of_employment ud) '''',
            date_of_joining = get_default (ud_date_of_joining ud) today,
            salary = get_default (ud_salary ud) 0,
            certifications = get_default (ud_certifications ud) '''',
            password_hash = hash_password hashpw salt pw\<rparr>
         in if em \<in> set (map email (users d)) \<or> an \<in> set (map aadhar_number (users d))
            then Inl IntegrityError
            else Inr (d\<lparr>users := users d @ [new_user]\<rparr>, new_user)) = Inr (d', u)"
    unfolding create_user_def
    by (simp split: sum.splits add: subscript_Inr)
  then show ?thesis by (auto simp: Let_def split: if_splits)
qed

lemma selectbox_member: "selectbox opts choice = Some x \<Longrightarrow> x \<in> set opts"
  by (auto simp: selectbox_def split: list.splits option.splits if_splits)

lemma demo_create_root:
  "create_user demo_hashpw ''salt'' 738000 init_db demo_user_data =
     Inr (init_db\<lparr>users := [demo_root]\<rparr>, demo_root)"
  by (simp add: create_user_def subscript_def get_default_def hash_password_def demo_hashpw_def
      demo_user_data_def demo_root_def init_db_def next_id_def Let_def)

lemma demo_register_staff:
  "register_user demo_hashpw ''salt'' 738000 init_db demo_form (Some [Lit ''Register'']) =
     Inr (init_db\<lparr>users := [demo_staff]\<rparr>,
          [Header ''Register New User'', Button [Lit ''Register''] [Lit ''Register''],
           Success [Lit ''User registered successfully!'']])"
  by (simp add: register_user_def button_def get_user_by_email_def selectbox_def roles_def
      create_user_def subscript_def get_default_def hash_password_def demo_hashpw_def
      demo_form_def demo_staff_def init_db_def next_id_def Let_def)

lemma register_user_creates:
  assumes "button clicked [Lit ''Register'']" "rf_password f = rf_confirm_password f"
    "get_user_by_email d (rf_email f) = None"
  shows "register_user hashpw salt today d f clicked =
     (case create_user hashpw salt today d
                \<lparr>ud_full_name = Some (rf_full_name f),
                 ud_phone_number = Some (rf_phone_number f),
                 ud_email = Some (rf_email f),
                 ud_aadhar_number = Some (rf_aadhar_number f),
                 ud_service_domain = Some (rf_service_domain f),
                 ud_role = selectbox roles (rf_role f),
                 ud_level_of_employment = Some (rf_level_of_employment f),
                 ud_date_of_joining = Some (rf_date_of_joining f),
                 ud_salary = Some (rf_salary f),
                 ud_certifications = Some (rf_certifications f),
                 ud_password = Some (rf_password f)\<rparr> of
                Inl e \<Rightarrow> Inl e
              | Inr (d', u) \<Rightarrow>
                  Inr (d', [Header ''Register New User'', Button [Lit ''Register''] [Lit ''Register'']]
                           @ [Success [Lit ''User registered successfully!'']]))"
  unfolding register_user_def Let_def using assms by simp

lemma register_user_idle:
  assumes "\<not> (button clicked [Lit ''Register''] \<and> rf_password f = rf_confirm_password f \<and>
      get_user_by_email d (rf_email f) = None)"
    "register_user hashpw salt today d f clicked = Inr (d', out)"
  shows "d' = d"
  using assms unfolding register_user_def Let_def by (simp split: if_splits)

subsection \<open>Steps and the attendance table\<close>

lemma commit_ticket_attendance: "attendance (commit_ticket d utcnow t) = attendance d"
  by (simp add: commit_ticket_def)

lemma manager_page_attendance:
  assumes "manager_service_tickets d utcnow choices clicked = Inr (d', out)"
  shows "attendance d' = attendance d"
proof (cases "service_tickets d = []")
  case True
  then have "d' = d" using assms by (simp add: manager_service_tickets_def)
  then show ?thesis by simp
next
  case False
  from manager_page_loop [OF False assms] obtain out' where
    "manager_service_tickets_loop d utcnow choices clicked (service_tickets d) = Inr (d', out')" ..
  from manager_loop_cases [OF this] show ?thesis
    by (auto simp: commit_ticket_attendance)
qed

lemma staff_page_cases:
  assumes "staff_assigned_tickets d utcnow uid clicked = (d', out)"
  shows "d' = d \<or>
     (\<exists>t. t \<in> set (service_tickets d) \<and> assigned_to t = Some uid \<and> status t \<noteq> ''Completed'' \<and>
        clicked = Some (complete_key t) \<and>
        d' = commit_ticket d utcnow (t\<lparr>status := ''Completed''\<rparr>))"
proof -
  let ?ts = "filter (\<lambda>t. assigned_to t = Some uid) (service_tickets d)"
  have "d' = d \<or> (\<exists>out'. staff_assigned_tickets_loop d utcnow clicked ?ts = (d', out'))"
    using assms by (auto simp: staff_assigned_tickets_def Let_def split: if_splits prod.splits)
  then show ?thesis
  proof
    assume "d' = d"
    then show ?thesis by simp
  next
    assume "\<exists>out'. staff_assigned_tickets_loop d utcnow clicked ?ts = (d', out')"
    then obtain out' where "staff_assigned_tickets_loop d utcnow clicked ?ts = (d', out')" ..
    from staff_loop_cases [OF this] show ?thesis by auto
  qed
qed

lemma staff_page_attendance:
  assumes "staff_assigned_tickets d utcnow uid clicked = (d', out)"
  shows "attendance d' = attendance d"
  using staff_page_cases [OF assms] by (auto simp: commit_ticket_attendance)

lemma client_request_attendance:
  assumes "client_service_request d uid t1 t2 choice descr clicked = Inr (d', out)"
  shows "attendance d' = attendance d"
  using assms by (auto simp: client_service_request_def Let_def split: if_splits option.splits)

lemma att_inv_step:
  assumes "att_inv d"
  shows "att_inv (step d e)"
proof -
  have same: "att_inv d'" if "attendance d' = attendance d" for d'
    using assms that by (simp add: att_inv_def)
  show ?thesis
  proof (cases e)
    case (RegisterUser hashpw salt today f clicked)
    show ?thesis
    proof (cases "register_user hashpw salt today d f clicked")
      case (Inl err)
      then show ?thesis using RegisterUser assms by simp
    next
      case (Inr res)
      obtain d' out where res: "res = (d', out)" by (cases res)
      have "attendance d' = attendance d" using register_user_tickets Inr res by blast
      then show ?thesis using RegisterUser Inr res same by simp
    qed
  next
    case (CreateUser hashpw salt today ud)
    show ?thesis
    proof (cases "create_user hashpw salt today d ud")
      case (Inl err)
      then show ?thesis using CreateUser assms by simp
    next
      case (Inr res)
      obtain d' u where res: "res = (d', u)" by (cases res)
      have "attendance d' = attendance d" using create_user_tickets Inr res by blast
      then show ?thesis using CreateUser Inr res same by simp
    qed
  next
    case (StaffAttendance today now uid clicked)
    then show ?thesis using staff_attendance_att_inv [OF assms] by simp
  next
    case (ClientServiceRequest uid t1 t2 choice descr clicked)
    show ?thesis
    proof (cases "client_service_request d uid t1 t2 choice descr clicked")
      case (Inl err)
      then show ?thesis using ClientServiceRequest assms by simp
    next
      case (Inr res)
      obtain d' out where res: "res = (d', out)" by (cases res)
      have "attendance d' = attendance d" using client_request_attendance Inr res by blast
      then show ?thesis using ClientServiceRequest Inr res same by simp
    qed
  next
    case (ManagerServiceTickets utcnow choices clicked)
    show ?thesis
    proof (cases "manager_service_tickets d utcnow choices clicked")
      case (Inl err)
      then show ?thesis using ManagerServiceTickets assms by simp
    next
      case (Inr res)
      obtain d' out where res: "res = (d', out)" by (cases res)
      have "attendance d' = attendance d" using manager_page_attendance Inr res by blast
      then show ?thesis using ManagerServiceTickets Inr res same by simp
    qed
  next
    case (StaffAssignedTickets utcnow uid clicked)
    obtain d' out where res: "staff_assigned_tickets d utcnow uid clicked = (d', out)"
      by (cases "staff_assigned_tickets d utcnow uid clicked")
    have "attendance d' = attendance d" using res by (rule staff_page_attendance)
    then show ?thesis using StaffAssignedTickets res same by simp
  next
    case (AttendanceReport s e' clicked)
    then show ?thesis using assms by simp
  qed
qed

lemma att_inv_init: "att_inv init_db"
  by (simp add: att_inv_def init_db_def)

lemma att_inv_foldl: "att_inv d \<Longrightarrow> att_inv (foldl step d evs)"
  by (induction evs arbitrary: d) (simp_all add: att_inv_step)

lemma att_inv_exec: "att_inv (exec evs init_db)"
  unfolding exec_def by (rule att_inv_foldl [OF att_inv_init])

lemma distinct_filter_le_1:
  "distinct (map f xs) \<Longrightarrow> length (filter (\<lambda>x. f x = k) xs) \<le> 1"
proof (induction xs)
  case Nil
  then show ?case by simp
next
  case (Cons x xs)
  show ?case
  proof (cases "f x = k")
    case True
    then have "k \<notin> f ` set xs" using Cons.prems by auto
    then have "filter (\<lambda>x. f x = k) xs = []" by (auto simp: filter_empty_conv)
    then show ?thesis using True by simp
  next
    case False
    then show ?thesis using Cons by simp
  qed
qed

subsection \<open>The branches of the attendance page\<close>

lemma find_map_update:
  "List.find P xs = Some r \<Longrightarrow> P r' \<Longrightarrow>
   List.find P (map (\<lambda>x. if x = r then r' else x) xs) = Some r'"
proof (induction xs)
  case Nil
  then show ?case by simp
next
  case (Cons x xs)
  have Pr: "P r" using Cons.prems(1) unfolding find_Some_iff by blast
  show ?case
  proof (cases "P x")
    case True
    then have "x = r" using Cons.prems(1) by simp
    then show ?thesis using Cons.prems(2) by simp
  next
    case False
    then have "x \<noteq> r" using Pr by auto
    moreover have "List.find P xs = Some r" using Cons.prems(1) False by simp
    ultimately show ?thesis using False Cons.IH Cons.prems(2) by simp
  qed
qed

lemma update_by_key:
  assumes "distinct (map f xs)" "r \<in> set xs"
  shows "map (\<lambda>x. if f x = f r then r' else x) xs = map (\<lambda>x. if x = r then r' else x) xs"
proof (rule map_cong [OF refl])
  fix x assume "x \<in> set xs"
  then have "f x = f r \<longleftrightarrow> x = r"
    using distinct_key_eq [OF assms(1) assms(2)] by auto
  then show "(if f x = f r then r' else x) = (if x = r then r' else x)" by simp
qed

lemma staff_attendance_none:
  assumes "List.find (\<lambda>r. att_user_id r = uid \<and> date r = today) (attendance d) = None"
    "clicked \<noteq> Some [Lit ''Check In'']"
  shows "staff_attendance d today now uid clicked =
           (d, [Header ''Attendance'', Button [Lit ''Check In''] [Lit ''Check In'']])"
  using assms by (simp add: staff_attendance_def button_def)

lemma staff_attendance_closed:
  assumes "List.find (\<lambda>r. att_user_id r = uid \<and> date r = today) (attendance d) = Some r"
    "check_out r = Some t"
  shows "staff_attendance d today now uid clicked =
           (d, [Header ''Attendance'',
                Write [Lit ''You have already checked in and out for today.''],
                Write [Lit ''Check In: '', TimeV (Some (check_in r)),
                       Lit '' | Check Out: '', TimeV (check_out r)]])"
  using assms by (simp add: staff_attendance_def)

lemma staff_attendance_open_idle:
  assumes "List.find (\<lambda>r. att_user_id r = uid \<and> date r = today) (attendance d) = Some r"
    "check_out r = None" "clicked \<noteq> Some [Lit ''Check Out'']"
  shows "staff_attendance d today now uid clicked =
           (d, [Header ''Attendance'',
                Write [Lit ''Checked in at: '', TimeV (Some (check_in r))],
                Button [Lit ''Check Out''] [Lit ''Check Out'']])"
  using assms by (simp add: staff_attendance_def button_def)

lemma staff_attendance_check_out:
  assumes "List.find (\<lambda>r. att_user_id r = uid \<and> date r = today) (attendance d) = Some r"
    "check_out r = None"
  shows "staff_attendance d today now uid (Some [Lit ''Check Out'']) =
           (d\<lparr>attendance :=
                map (\<lambda>x. if attendance_id x = attendance_id r then r\<lparr>check_out := Some now\<rparr> else x)
                  (attendance d)\<rparr>,
            [Header ''Attendance'',
             Write [Lit ''Checked in at: '', TimeV (Some (check_in r))],
             Button [Lit ''Check Out''] [Lit ''Check Out''],
             Success [Lit ''Checked out successfully!''], Rerun])"
  using assms by (simp add: staff_attendance_def button_def)

lemma demo_check_in:
  "exec [StaffAttendance 738000 900 2 (Some [Lit ''Check In''])] init_db = demo_open"
  by (simp add: exec_def staff_attendance_def button_def init_db_def demo_open_def
      demo_record_def next_id_def)

lemma demo_find_open:
  "List.find (\<lambda>r. att_user_id r = 2 \<and> date r = 738000) (attendance demo_open) = Some demo_record"
  by (simp add: demo_open_def demo_record_def init_db_def)

lemma demo_find_closed:
  "List.find (\<lambda>r. att_user_id r = 2 \<and> date r = 738000) (attendance demo_closed) =
     Some (demo_record\<lparr>check_out := Some 1700\<rparr>)"
  by (simp add: demo_closed_def demo_record_def init_db_def)

subsection \<open>Select boxes and counting\<close>

lemma selectbox_nonempty:
  "opts \<noteq> [] \<Longrightarrow> \<exists>x\<in>set opts. selectbox opts choice = Some x"
  by (cases opts; cases choice) (auto simp: selectbox_def)

lemma count_list_filter:
  "count_list (filter P xs) r = (if P r then count_list xs r else 0)"
  by (induction xs) auto

subsection \<open>The ticket scenario, step by step\<close>

lemma demo_step1: "step init_db demo_register = demo_db1"
  by (simp add: demo_register_def demo_register_staff demo_db1_def)

lemma demo_step2: "step demo_db1 demo_raise = demo_db2"
  by (simp add: demo_raise_def client_service_request_def button_def selectbox_def
      service_types_def demo_db1_def demo_db2_def demo_ticket_def init_db_def next_id_def Let_def)

lemma demo_manager_run:
  "manager_service_tickets demo_db2 200 (\<lambda>k. None) (Some [Lit ''assign_'', Num 1]) =
     Inr (demo_db3,
          [Header ''Manage Service Tickets'',
           Write [Lit ''**Ticket ID:** '', Num 1],
           Write [Lit ''**Client ID:** '', Num 7],
           Write [Lit ''**Service Type:** '', Lit ''Plumber''],
           Write [Lit ''**Description:** '', Lit ''Leaking tap''],
           Write [Lit ''**Status:** '', Lit ''Pending''],
           Button [Lit ''Assign Ticket '', Num 1] [Lit ''assign_'', Num 1],
           Success [Lit ''Ticket '', Num 1, Lit '' assigned to '', Lit ''Sam Staff'',
                    Lit '' (ID: '', Num 1, Lit '')'', Lit ''!''],
           Rerun])"
  by (simp add: manager_service_tickets_def button_def selectbox_def dict_keys_def dict_get_def
      staff_label_def assign_label_def assign_key_def select_key_def commit_ticket_def
      demo_db1_def demo_db2_def demo_db3_def demo_ticket_def demo_staff_def init_db_def Let_def)

lemma demo_step3: "step demo_db2 demo_assign = demo_db3"
  unfolding demo_assign_def step.simps demo_manager_run by simp

lemma demo_staff_run:
  "staff_assigned_tickets demo_db3 300 1 (Some [Lit ''complete_'', Num 1]) =
     (demo_db4,
      [Header ''My Assigned Tickets'',
       Write [Lit ''**Ticket ID:** '', Num 1],
       Write [Lit ''**Service Type:** '', Lit ''Plumber''],
       Write [Lit ''**Description:** '', Lit ''Leaking tap''],
       Write [Lit ''**Status:** '', Lit ''In Progress''],
       Button [Lit ''Mark Ticket '', Num 1, Lit '' as Completed''] [Lit ''complete_'', Num 1],
       Success [Lit ''Ticket '', Num 1, Lit '' marked as Completed!''],
       Rerun])"
  by (simp add: staff_assigned_tickets_def button_def complete_label_def complete_key_def
      commit_ticket_def demo_db1_def demo_db3_def demo_db4_def demo_ticket_def init_db_def Let_def)

lemma demo_step4: "step demo_db3 demo_complete = demo_db4"
  unfolding demo_complete_def step.simps demo_staff_run by simp

lemma demo_states:
  "states init_db [demo_register, demo_raise, demo_assign, demo_complete] =
     [init_db, demo_db1, demo_db2, demo_db3, demo_db4]"
  by (simp add: demo_step1 demo_step2 demo_step3 demo_step4)

lemma demo_exec3: "exec [demo_register, demo_raise, demo_assign] init_db = demo_db3"
  by (simp add: exec_def demo_step1 demo_step2 demo_step3)

lemma demo_exec4: "exec [demo_register, demo_raise, demo_assign, demo_complete] init_db = demo_db4"
  by (simp add: exec_def demo_step1 demo_step2 demo_step3 demo_step4)

lemma ticket_ok_assigned_iff: "ticket_ok t \<Longrightarrow> assigned_iff t"
  by (cases "assigned_to t") (auto simp: ticket_ok_def assigned_iff_def)

lemma demo_status:
  "ticket_status init_db 1 = None" "ticket_status demo_db1 1 = None"
  "ticket_status demo_db2 1 = Some ''Pending''" "ticket_status demo_db3 1 = Some ''In Progress''"
  "ticket_status demo_db4 1 = Some ''Completed''"
  by (simp_all add: ticket_status_def init_db_def demo_db1_def demo_db2_def demo_db3_def
      demo_db4_def demo_ticket_def)

lemma demo_status_Suc:
  "ticket_status init_db (Suc 0) = None" "ticket_status demo_db1 (Suc 0) = None"
  "ticket_status demo_db2 (Suc 0) = Some ''Pending''"
  "ticket_status demo_db3 (Suc 0) = Some ''In Progress''"
  "ticket_status demo_db4 (Suc 0) = Some ''Completed''"
  using demo_status by simp_all

lemma assigned_iff_commit:
  assumes "\<forall>t\<in>set (service_tickets d). assigned_iff t" "assigned_iff t'"
  shows "\<forall>t\<in>set (service_tickets (commit_ticket d utcnow t')). assigned_iff t"
proof
  fix t assume "t \<in> set (service_tickets (commit_ticket d utcnow t'))"
  then have "t = t'\<lparr>updated_at := utcnow\<rparr> \<or> t \<in> set (service_tickets d)"
    using commit_ticket_set [of d utcnow t'] by auto
  moreover have "assigned_iff (t'\<lparr>updated_at := utcnow\<rparr>)"
    using assms(2) by (simp add: assigned_iff_def)
  ultimately show "assigned_iff t" using assms(1) by auto
qed

subsection \<open>Completing a ticket\<close>

lemma demo_db3_tickets: "service_tickets demo_db3 = [demo_ticket_ip]"
  by (simp add: demo_db3_def demo_db1_def init_db_def demo_ticket_ip_def)

lemma demo_assign_key: "assign_key demo_ticket_ip = [Lit ''assign_'', Num 1]"
  by (simp add: assign_key_def demo_ticket_ip_def demo_ticket_def)

lemma demo_complete_key: "complete_key demo_ticket_ip = [Lit ''complete_'', Num 1]"
  by (simp add: complete_key_def demo_ticket_ip_def demo_ticket_def)

lemma staff_page_nonempty:
  assumes "filter (\<lambda>t. assigned_to t = Some uid) (service_tickets d) \<noteq> []"
    "staff_assigned_tickets_loop d utcnow clicked
       (filter (\<lambda>t. assigned_to t = Some uid) (service_tickets d)) = (d', out)"
  shows "staff_assigned_tickets d utcnow uid clicked = (d', Header ''My Assigned Tickets'' # out)"
  using assms by (simp add: staff_assigned_tickets_def Let_def)

lemma staff_page_empty:
  assumes "filter (\<lambda>t. assigned_to t = Some uid) (service_tickets d) = []"
  shows "staff_assigned_tickets d utcnow uid clicked =
           (d, [Header ''My Assigned Tickets'', Write [Lit ''No tickets assigned to you.'']])"
  using assms by (simp add: staff_assigned_tickets_def Let_def)

lemma complete_done:
  assumes "distinct (map ticket_id (service_tickets d))" "t \<in> set (service_tickets d)"
    "assigned_to t = Some uid" "status t \<noteq> ''Completed''"
  shows "\<exists>out. staff_assigned_tickets d utcnow uid (Some (complete_key t)) =
           (d\<lparr>service_tickets :=
                map (\<lambda>x. if x = t then t\<lparr>status := ''Completed'', updated_at := utcnow\<rparr> else x)
                  (service_tickets d)\<rparr>, out) \<and>
           Success [Lit ''Ticket '', Num (ticket_id t), Lit '' marked as Completed!''] \<in> set out"
proof -
  let ?ts = "filter (\<lambda>t. assigned_to t = Some uid) (service_tickets d)"
  have d: "distinct (map ticket_id ?ts)" using assms(1) by (rule distinct_map_filter)
  have t: "t \<in> set ?ts" using assms(2,3) by simp
  from staff_loop_fire [OF d t assms(4), of d utcnow]
  obtain out where out: "staff_assigned_tickets_loop d utcnow (Some (complete_key t)) ?ts =
             (commit_ticket d utcnow (t\<lparr>status := ''Completed''\<rparr>), out)"
    "Success [Lit ''Ticket '', Num (ticket_id t), Lit '' marked as Completed!''] \<in> set out"
    by blast
  have ne: "?ts \<noteq> []"
  proof
    assume e: "?ts = []"
    show False using t unfolding e by simp
  qed
  have upd: "map (\<lambda>x. if ticket_id x = ticket_id t then t\<lparr>status := ''Completed'', updated_at := utcnow\<rparr> else x)
        (service_tickets d) =
      map (\<lambda>x. if x = t then t\<lparr>status := ''Completed'', updated_at := utcnow\<rparr> else x) (service_tickets d)"
    by (rule update_by_key [OF assms(1,2)])
  have c: "commit_ticket d utcnow (t\<lparr>status := ''Completed''\<rparr>) =
      d\<lparr>service_tickets :=
                map (\<lambda>x. if x = t then t\<lparr>status := ''Completed'', updated_at := utcnow\<rparr> else x)
                  (service_tickets d)\<rparr>"
    using upd by (simp add: commit_ticket_def)
  have "staff_assigned_tickets d utcnow uid (Some (complete_key t)) =
      (commit_ticket d utcnow (t\<lparr>status := ''Completed''\<rparr>), Header ''My Assigned Tickets'' # out)"
    by (rule staff_page_nonempty [OF ne out(1)])
  then show ?thesis using out(2) unfolding c by simp
qed

lemma complete_refused:
  assumes "distinct (map ticket_id (service_tickets d))" "t \<in> set (service_tickets d)"
    "assigned_to t = Some uid \<longrightarrow> status t = ''Completed''"
  shows "\<exists>out. staff_assigned_tickets d utcnow uid (Some (complete_key t)) = (d, out) \<and>
           (\<forall>m. Success m \<notin> set out) \<and> Rerun \<notin> set out"
proof -
  let ?ts = "filter (\<lambda>t. assigned_to t = Some uid) (service_tickets d)"
  show ?thesis
  proof (cases "?ts = []")
    case True
    show ?thesis unfolding staff_page_empty [OF True] by simp
  next
    case False
    have idle: "\<forall>x\<in>set ?ts. \<not> (status x \<noteq> ''Completed'' \<and> Some (complete_key t) = Some (complete_key x))"
    proof (intro ballI notI)
      fix x assume x: "x \<in> set ?ts"
        and a: "status x \<noteq> ''Completed'' \<and> Some (complete_key t) = Some (complete_key x)"
      have xs: "x \<in> set (service_tickets d)" "assigned_to x = Some uid" using x by simp_all
      have "ticket_id x = ticket_id t" using a by (simp add: complete_key_def)
      then have "x = t" by (rule distinct_key_eq [OF assms(1,2) xs(1)])
      then show False using a xs(2) assms(3) by simp
    qed
    from staff_loop_idle [OF idle, of d utcnow]
    obtain out where out: "staff_assigned_tickets_loop d utcnow (Some (complete_key t)) ?ts = (d, out)"
      "Rerun \<notin> set out" "\<forall>m. Success m \<notin> set out"
      by blast
    show ?thesis unfolding staff_page_nonempty [OF False out(1)] using out(2,3) by simp
  qed
qed

lemma demo_refused_run:
  "staff_assigned_tickets demo_db3 300 2 (Some [Lit ''complete_'', Num 1]) =
     (demo_db3, [Header ''My Assigned Tickets'', Write [Lit ''No tickets assigned to you.'']])"
  by (simp add: staff_assigned_tickets_def demo_db3_tickets demo_ticket_ip_def demo_ticket_def Let_def)

section \<open>The claims\<close>

subsection \<open>C1: one attendance record per user and day\<close>

text \<open>
  C1. After any sequence of page runs from the empty database, at most one attendance
  record exists for a user \<open>u\<close> and a date \<open>dt\<close>. And in any database that holds a
  record for \<open>(u, dt)\<close>, open or closed, a check-in attempt (a run of the attendance page
  for \<open>u\<close> on \<open>dt\<close> started by the Check In button) is refused: it returns the database
  unchanged, so no record is created, reports no success, and shows what is already
  there, the check-in time of the open record or "You have already checked in and out for
  today." for the closed one. The source has no error values; this refusal is what the
  specification names AlreadyCheckedIn.
\<close>

theorem one_record_per_user_day:
  "length (filter (\<lambda>r. att_user_id r = u \<and> date r = dt) (attendance (exec evs init_db))) \<le> 1 \<and>
   ((\<exists>r\<in>set (attendance d). att_user_id r = u \<and> date r = dt) \<longrightarrow>
      (\<exists>r. List.find (\<lambda>r. att_user_id r = u \<and> date r = dt) (attendance d) = Some r \<and>
           staff_attendance d dt now u (Some [Lit ''Check In'']) =
             (d, if check_out r = None
                 then [Header ''Attendance'',
                       Write [Lit ''Checked in at: '', TimeV (Some (check_in r))],
                       Button [Lit ''Check Out''] [Lit ''Check Out'']]
                 else [Header ''Attendance'',
                       Write [Lit ''You have already checked in and out for today.''],
                       Write [Lit ''Check In: '', TimeV (Some (check_in r)),
                              Lit '' | Check Out: '', TimeV (check_out r)]])))"
proof (intro conjI impI)
  have "distinct (map att_key (attendance (exec evs init_db)))"
    using att_inv_exec [of evs] by (simp add: att_inv_def)
  then have "length (filter (\<lambda>r. att_key r = (u, dt)) (attendance (exec evs init_db))) \<le> 1"
    by (rule distinct_filter_le_1)
  then show "length (filter (\<lambda>r. att_user_id r = u \<and> date r = dt) (attendance (exec evs init_db))) \<le> 1"
    by (simp add: att_key_def)
next
  let ?P = "\<lambda>r. att_user_id r = u \<and> date r = dt"
  assume "\<exists>r\<in>set (attendance d). att_user_id r = u \<and> date r = dt"
  then have "List.find ?P (attendance d) \<noteq> None" unfolding find_None_iff by blast
  then obtain r where r: "List.find ?P (attendance d) = Some r" by blast
  have ne: "Some [Lit ''Check In''] \<noteq> Some [Lit ''Check Out'']" by simp
  have "staff_attendance d dt now u (Some [Lit ''Check In'']) =
             (d, if check_out r = None
                 then [Header ''Attendance'',
                       Write [Lit ''Checked in at: '', TimeV (Some (check_in r))],
                       Button [Lit ''Check Out''] [Lit ''Check Out'']]
                 else [Header ''Attendance'',
                       Write [Lit ''You have already checked in and out for today.''],
                       Write [Lit ''Check In: '', TimeV (Some (check_in r)),
                              Lit '' | Check Out: '', TimeV (check_out r)]])"
  proof (cases "check_out r")
    case None
    show ?thesis unfolding staff_attendance_open_idle [OF r None ne] using None by simp
  next
    case (Some t)
    show ?thesis unfolding staff_attendance_closed [OF r Some] using Some by simp
  qed
  with r show "\<exists>r. List.find ?P (attendance d) = Some r \<and>
           staff_attendance d dt now u (Some [Lit ''Check In'']) =
             (d, if check_out r = None
                 then [Header ''Attendance'',
                       Write [Lit ''Checked in at: '', TimeV (Some (check_in r))],
                       Button [Lit ''Check Out''] [Lit ''Check Out'']]
                 else [Header ''Attendance'',
                       Write [Lit ''You have already checked in and out for today.''],
                       Write [Lit ''Check In: '', TimeV (Some (check_in r)),
                              Lit '' | Check Out: '', TimeV (check_out r)]])"
    by (intro exI [of _ r] conjI)
qed

theorem one_record_per_user_day_witness:
  "length (filter (\<lambda>r. att_user_id r = 2 \<and> date r = 738000)
     (attendance (exec [StaffAttendance 738000 900 2 (Some [Lit ''Check In''])] init_db))) \<le> 1 \<and>
   (\<exists>r\<in>set (attendance demo_open). att_user_id r = 2 \<and> date r = 738000) \<and>
   staff_attendance demo_open 738000 1000 2 (Some [Lit ''Check In'']) =
     (demo_open, [Header ''Attendance'', Write [Lit ''Checked in at: '', TimeV (Some 900)],
                  Button [Lit ''Check Out''] [Lit ''Check Out'']])"
proof -
  have ex: "\<exists>r\<in>set (attendance demo_open). att_user_id r = 2 \<and> date r = 738000"
    by (simp add: demo_open_def demo_record_def init_db_def)
  from one_record_per_user_day [of 2 738000 "[StaffAttendance 738000 900 2 (Some [Lit ''Check In''])]"
      demo_open 1000] ex
  have len: "length (filter (\<lambda>r. att_user_id r = 2 \<and> date r = 738000)
     (attendance (exec [StaffAttendance 738000 900 2 (Some [Lit ''Check In''])] init_db))) \<le> 1"
    and run: "\<exists>r. List.find (\<lambda>r. att_user_id r = 2 \<and> date r = 738000) (attendance demo_open) = Some r \<and>
           staff_attendance demo_open 738000 1000 2 (Some [Lit ''Check In'']) =
             (demo_open, if check_out r = None
                 then [Header ''Attendance'',
                       Write [Lit ''Checked in at: '', TimeV (Some (check_in r))],
                       Button [Lit ''Check Out''] [Lit ''Check Out'']]
                 else [Header ''Attendance'',
                       Write [Lit ''You have already checked in and out for today.''],
                       Write [Lit ''Check In: '', TimeV (Some (check_in r)),
                              Lit '' | Check Out: '', TimeV (check_out r)]])"
    by blast+
  from run have "staff_attendance demo_open 738000 1000 2 (Some [Lit ''Check In'']) =
     (demo_open, [Header ''Attendance'', Write [Lit ''Checked in at: '', TimeV (Some 900)],
                  Button [Lit ''Check Out''] [Lit ''Check Out'']])"
    unfolding demo_find_open by (simp add: demo_record_def)
  with len ex show ?thesis by simp
qed

subsection \<open>C2: the status of a ticket only moves forward\<close>

text \<open>
  C2. Take any sequence of page runs from the empty database (raising, assigning and
  completing among them) and any ticket number \<open>i\<close>. The statuses of ticket \<open>i\<close>
  observed in the successive databases, repeats collapsed, form an initial segment of
  Pending, In Progress, Completed, hence a subsequence of it that cannot be Pending
  followed by Completed. Step by step: between two successive databases the status of the
  ticket stays the same or moves along one edge (created as Pending, Pending to In
  Progress, In Progress to Completed); it never moves backward and never from Pending to
  Completed. The strings are the ones the source stores.
\<close>

theorem status_monotonic:
  "prefix (remdups_adj (observed i (states init_db evs))) workflow \<and>
   subseq (remdups_adj (observed i (states init_db evs))) workflow \<and>
   (\<forall>k < length evs.
      edge (ticket_status (states init_db evs ! k) i) (ticket_status (states init_db evs ! Suc k) i) \<and>
      \<not> (ticket_status (states init_db evs ! k) i = Some ''Pending'' \<and>
         ticket_status (states init_db evs ! Suc k) i = Some ''Completed''))"
proof -
  have p: "prefix (remdups_adj (observed i (states init_db evs))) workflow"
    using history_prefix_aux [OF ticket_inv_init, of i evs] by (simp add: ticket_status_init)
  have e: "edge (ticket_status (states init_db evs ! k) i) (ticket_status (states init_db evs ! Suc k) i)"
    if "k < length evs" for k
    by (rule no_skip_aux [OF ticket_inv_init that])
  have "\<not> (ticket_status (states init_db evs ! k) i = Some ''Pending'' \<and>
        ticket_status (states init_db evs ! Suc k) i = Some ''Completed'')" if "k < length evs" for k
    using e [OF that] by (auto simp: edge_def)
  with p e show ?thesis by (simp add: prefix_imp_subseq)
qed

theorem status_monotonic_witness:
  "remdups_adj (observed 1 (states init_db [demo_register, demo_raise, demo_assign, demo_complete])) =
     [''Pending'', ''In Progress'', ''Completed''] \<and>
   prefix [''Pending'', ''In Progress'', ''Completed''] workflow \<and>
   (2::nat) < length [demo_register, demo_raise, demo_assign, demo_complete] \<and>
   ticket_status (states init_db [demo_register, demo_raise, demo_assign, demo_complete] ! 2) 1 =
     Some ''Pending'' \<and>
   ticket_status (states init_db [demo_register, demo_raise, demo_assign, demo_complete] ! Suc 2) 1 =
     Some ''In Progress'' \<and>
   edge (Some ''Pending'') (Some ''In Progress'')"
proof -
  let ?evs = "[demo_register, demo_raise, demo_assign, demo_complete]"
  have h: "remdups_adj (observed 1 (states init_db ?evs)) = [''Pending'', ''In Progress'', ''Completed'']"
    unfolding demo_states by (simp add: observed_def map_filter_simps demo_status_Suc)
  have s2: "ticket_status (states init_db ?evs ! 2) 1 = Some ''Pending''"
    unfolding demo_states by (simp add: demo_status_Suc)
  have s3: "ticket_status (states init_db ?evs ! Suc 2) 1 = Some ''In Progress''"
    unfolding demo_states by (simp add: demo_status_Suc)
  have l: "(2::nat) < length ?evs" by simp
  from status_monotonic [of 1 ?evs] l
  have "prefix (remdups_adj (observed 1 (states init_db ?evs))) workflow"
    and "edge (ticket_status (states init_db ?evs ! 2) 1) (ticket_status (states init_db ?evs ! Suc 2) 1)"
    by blast+
  then have "prefix [''Pending'', ''In Progress'', ''Completed''] workflow"
    and "edge (Some ''Pending'') (Some ''In Progress'')"
    unfolding h s2 s3 by simp_all
  then show ?thesis using h s2 s3 l by blast
qed

subsection \<open>C3: assigned exactly when in progress or completed\<close>

text \<open>
  C3. In every database reached from the empty one, each ticket has \<^verbatim>\<open>assigned_to\<close>
  set if and only if its status is In Progress or Completed; and every page run (raise,
  assign and complete among them) preserves this, from any database in which it holds.
\<close>

theorem assignment_invariant:
  "(\<forall>t\<in>set (service_tickets (exec evs init_db)). assigned_iff t) \<and>
   ((\<forall>t\<in>set (service_tickets d). assigned_iff t) \<longrightarrow>
      (\<forall>t\<in>set (service_tickets (step d e)). assigned_iff t))"
proof (intro conjI impI)
  have "list_all ticket_ok (service_tickets (exec evs init_db))"
    using ticket_inv_exec [of evs] by (simp add: ticket_inv_def)
  then show "\<forall>t\<in>set (service_tickets (exec evs init_db)). assigned_iff t"
    by (simp add: list_all_iff ticket_ok_assigned_iff)
next
  assume inv: "\<forall>t\<in>set (service_tickets d). assigned_iff t"
  from step_tickets_cases [of d e]
  show "\<forall>t\<in>set (service_tickets (step d e)). assigned_iff t"
  proof (elim disjE)
    assume "service_tickets (step d e) = service_tickets d"
    then show ?thesis using inv by simp
  next
    assume "raised d (step d e)"
    then obtain t where t: "step d e = d\<lparr>service_tickets := service_tickets d @ [t]\<rparr>"
      "status t = ''Pending''" "assigned_to t = None"
      unfolding raised_def by blast
    have "assigned_iff t" using t(2,3) by (simp add: assigned_iff_def)
    then show ?thesis using inv unfolding t(1) by simp
  next
    assume "assigned d (step d e)"
    then obtain t sid utcnow where t:
      "step d e = commit_ticket d utcnow (t\<lparr>assigned_to := Some sid, status := ''In Progress''\<rparr>)"
      unfolding assigned_def by blast
    show ?thesis unfolding t
      by (rule assigned_iff_commit [OF inv]) (simp add: assigned_iff_def)
  next
    assume "completed d (step d e)"
    then obtain t uid utcnow where t: "assigned_to t = Some uid"
      "step d e = commit_ticket d utcnow (t\<lparr>status := ''Completed''\<rparr>)"
      unfolding completed_def by blast
    show ?thesis unfolding t(2)
      by (rule assigned_iff_commit [OF inv]) (simp add: assigned_iff_def t(1))
  qed
qed

theorem assignment_invariant_witness:
  "service_tickets (exec [demo_register, demo_raise, demo_assign, demo_complete] init_db) =
     [demo_ticket\<lparr>assigned_to := Some 1, status := ''Completed'', updated_at := 300\<rparr>] \<and>
   assigned_iff (demo_ticket\<lparr>assigned_to := Some 1, status := ''Completed'', updated_at := 300\<rparr>) \<and>
   service_tickets demo_db2 = [demo_ticket] \<and> assigned_iff demo_ticket \<and>
   service_tickets (step demo_db2 demo_assign) =
     [demo_ticket\<lparr>assigned_to := Some 1, status := ''In Progress'', updated_at := 200\<rparr>] \<and>
   assigned_iff (demo_ticket\<lparr>assigned_to := Some 1, status := ''In Progress'', updated_at := 200\<rparr>)"
proof -
  have a: "service_tickets (exec [demo_register, demo_raise, demo_assign, demo_complete] init_db) =
     [demo_ticket\<lparr>assigned_to := Some 1, status := ''Completed'', updated_at := 300\<rparr>]"
    unfolding demo_exec4 by (simp add: demo_db4_def demo_db1_def init_db_def)
  have b: "service_tickets demo_db2 = [demo_ticket]"
    by (simp add: demo_db2_def demo_db1_def init_db_def)
  have c: "service_tickets (step demo_db2 demo_assign) =
     [demo_ticket\<lparr>assigned_to := Some 1, status := ''In Progress'', updated_at := 200\<rparr>]"
    unfolding demo_step3 by (simp add: demo_db3_def demo_db1_def init_db_def)
  have d: "assigned_iff demo_ticket" by (simp add: assigned_iff_def demo_ticket_def)
  from assignment_invariant [of "[demo_register, demo_raise, demo_assign, demo_complete]" demo_db2 demo_assign]
  have "assigned_iff (demo_ticket\<lparr>assigned_to := Some 1, status := ''Completed'', updated_at := 300\<rparr>)"
    and "assigned_iff (demo_ticket\<lparr>assigned_to := Some 1, status := ''In Progress'', updated_at := 200\<rparr>)"
    unfolding a b c using d by simp_all
  then show ?thesis using a b c d by blast
qed

subsection \<open>C4: assigning a ticket that is not pending\<close>

text \<open>
  C4. Let \<open>t\<close> be a ticket whose status is not Pending, in a database whose ticket keys
  are distinct (the primary key; it holds in every reachable database, lemma
  \<open>ticket_inv_exec\<close>). An assign attempt on \<open>t\<close>, a run of the manager page started by
  the button with the assign key of \<open>t\<close>, is refused: it returns the database unchanged
  (so \<^verbatim>\<open>assigned_to\<close> and \<^verbatim>\<open>status\<close> of \<open>t\<close> are as before), reports no success,
  and does not even render an assign button for \<open>t\<close>. Moreover no run of the manager
  page, whatever was clicked or chosen, changes the row of \<open>t\<close>. The source has no error
  values; this refusal is what the specification names InvalidTransition.
\<close>

theorem assign_non_pending_refused:
  assumes "distinct (map ticket_id (service_tickets d))" "t \<in> set (service_tickets d)"
    "status t \<noteq> ''Pending''"
  shows "(\<exists>out. manager_service_tickets d utcnow choices (Some (assign_key t)) = Inr (d, out) \<and>
            Rerun \<notin> set out \<and> (\<forall>m. Success m \<notin> set out) \<and>
            (\<forall>l. Button l (assign_key t) \<notin> set out)) \<and>
         (\<forall>clicked d' out. manager_service_tickets d utcnow choices clicked = Inr (d', out) \<longrightarrow>
            t \<in> set (service_tickets d'))"
proof (intro conjI allI impI)
  show "\<exists>out. manager_service_tickets d utcnow choices (Some (assign_key t)) = Inr (d, out) \<and>
            Rerun \<notin> set out \<and> (\<forall>m. Success m \<notin> set out) \<and>
            (\<forall>l. Button l (assign_key t) \<notin> set out)"
    by (rule assign_refused_aux [OF assms])
next
  fix clicked d' out
  assume "manager_service_tickets d utcnow choices clicked = Inr (d', out)"
  then show "t \<in> set (service_tickets d')"
    by (rule manager_keeps_non_pending [OF assms])
qed

theorem assign_non_pending_refused_witness:
  "distinct (map ticket_id (service_tickets demo_db3)) \<and>
   demo_ticket_ip \<in> set (service_tickets demo_db3) \<and>
   status demo_ticket_ip \<noteq> ''Pending'' \<and>
   manager_service_tickets demo_db3 400 (\<lambda>k. None) (Some (assign_key demo_ticket_ip)) =
     Inr (demo_db3,
          [Header ''Manage Service Tickets'',
           Write [Lit ''**Ticket ID:** '', Num 1],
           Write [Lit ''**Client ID:** '', Num 7],
           Write [Lit ''**Service Type:** '', Lit ''Plumber''],
           Write [Lit ''**Description:** '', Lit ''Leaking tap''],
           Write [Lit ''**Status:** '', Lit ''In Progress''],
           Write [Lit ''---'']])"
proof -
  have h1: "distinct (map ticket_id (service_tickets demo_db3))"
    by (simp add: demo_db3_tickets)
  have h2: "demo_ticket_ip \<in> set (service_tickets demo_db3)"
    by (simp add: demo_db3_tickets)
  have h3: "status demo_ticket_ip \<noteq> ''Pending''"
    by (simp add: demo_ticket_ip_def)
  from assign_non_pending_refused [OF h1 h2 h3, of 400 "\<lambda>k. None"]
  obtain out where out: "manager_service_tickets demo_db3 400 (\<lambda>k. None) (Some (assign_key demo_ticket_ip)) =
     Inr (demo_db3, out)" by blast
  have "manager_service_tickets demo_db3 400 (\<lambda>k. None) (Some (assign_key demo_ticket_ip)) =
     Inr (demo_db3,
          [Header ''Manage Service Tickets'',
           Write [Lit ''**Ticket ID:** '', Num 1],
           Write [Lit ''**Client ID:** '', Num 7],
           Write [Lit ''**Service Type:** '', Lit ''Plumber''],
           Write [Lit ''**Description:** '', Lit ''Leaking tap''],
           Write [Lit ''**Status:** '', Lit ''In Progress''],
           Write [Lit ''---'']])"
    using out
    by (simp add: manager_service_tickets_def button_def demo_db3_tickets demo_ticket_ip_def
        demo_ticket_def Let_def)
  then show ?thesis using h1 h2 h3 by blast
qed

subsection \<open>C5: completing a ticket\<close>

text \<open>
  C5. Let \<open>t\<close> be a ticket of a database reached from the empty one, and let user \<open>uid\<close>
  attempt to complete it (a run of the staff page of \<open>uid\<close> started by the button with the
  complete key of \<open>t\<close>). If \<open>uid\<close> is the \<^verbatim>\<open>assigned_to\<close> of \<open>t\<close> and the status of
  \<open>t\<close> is In Progress, the attempt succeeds: the row of \<open>t\<close>, and no other, becomes
  Completed (with \<^verbatim>\<open>updated_at\<close> refreshed and \<^verbatim>\<open>assigned_to\<close> kept), and success
  is reported. In every other case, in particular for any other staff user, the database
  is returned unchanged and no success is reported (the specification's NotAssignee and
  InvalidTransition).
\<close>

theorem complete_by_assignee_only:
  assumes "t \<in> set (service_tickets (exec evs init_db))"
  shows
    "(assigned_to t = Some uid \<and> status t = ''In Progress'' \<longrightarrow>
        (\<exists>out. staff_assigned_tickets (exec evs init_db) utcnow uid (Some (complete_key t)) =
           ((exec evs init_db)\<lparr>service_tickets :=
                map (\<lambda>x. if x = t then t\<lparr>status := ''Completed'', updated_at := utcnow\<rparr> else x)
                  (service_tickets (exec evs init_db))\<rparr>, out) \<and>
           Success [Lit ''Ticket '', Num (ticket_id t), Lit '' marked as Completed!''] \<in> set out)) \<and>
     (\<not> (assigned_to t = Some uid \<and> status t = ''In Progress'') \<longrightarrow>
        (\<exists>out. staff_assigned_tickets (exec evs init_db) utcnow uid (Some (complete_key t)) =
           (exec evs init_db, out) \<and>
           (\<forall>m. Success m \<notin> set out) \<and> Rerun \<notin> set out))"
proof (intro conjI impI)
  let ?d = "exec evs init_db"
  have inv: "ticket_inv ?d" by (rule ticket_inv_exec)
  then have dist: "distinct (map ticket_id (service_tickets ?d))" by (simp add: ticket_inv_def)
  have ok: "ticket_ok t" using inv assms by (simp add: ticket_inv_def list_all_iff)
  {
    assume a: "assigned_to t = Some uid \<and> status t = ''In Progress''"
    then have "status t \<noteq> ''Completed''" by simp
    with a show "\<exists>out. staff_assigned_tickets ?d utcnow uid (Some (complete_key t)) =
           (?d\<lparr>service_tickets :=
                map (\<lambda>x. if x = t then t\<lparr>status := ''Completed'', updated_at := utcnow\<rparr> else x)
                  (service_tickets ?d)\<rparr>, out) \<and>
           Success [Lit ''Ticket '', Num (ticket_id t), Lit '' marked as Completed!''] \<in> set out"
      using complete_done [OF dist assms] by blast
  }
  {
    assume a: "\<not> (assigned_to t = Some uid \<and> status t = ''In Progress'')"
    have "assigned_to t = Some uid \<longrightarrow> status t = ''Completed''"
      using a ok by (auto simp: ticket_ok_def)
    then show "\<exists>out. staff_assigned_tickets ?d utcnow uid (Some (complete_key t)) = (?d, out) \<and>
           (\<forall>m. Success m \<notin> set out) \<and> Rerun \<notin> set out"
      by (rule complete_refused [OF dist assms])
  }
qed

theorem complete_by_assignee_only_witness:
  "demo_ticket_ip \<in> set (service_tickets (exec [demo_register, demo_raise, demo_assign] init_db)) \<and>
   assigned_to demo_ticket_ip = Some 1 \<and> status demo_ticket_ip = ''In Progress'' \<and>
   fst (staff_assigned_tickets (exec [demo_register, demo_raise, demo_assign] init_db) 300 1
          (Some (complete_key demo_ticket_ip))) = demo_db4 \<and>
   assigned_to demo_ticket_ip \<noteq> Some 2 \<and>
   staff_assigned_tickets (exec [demo_register, demo_raise, demo_assign] init_db) 300 2
          (Some (complete_key demo_ticket_ip)) =
     (demo_db3, [Header ''My Assigned Tickets'', Write [Lit ''No tickets assigned to you.'']])"
proof -
  let ?evs = "[demo_register, demo_raise, demo_assign]"
  have m: "demo_ticket_ip \<in> set (service_tickets (exec ?evs init_db))"
    unfolding demo_exec3 by (simp add: demo_db3_tickets)
  have a: "assigned_to demo_ticket_ip = Some 1" "status demo_ticket_ip = ''In Progress''"
    "assigned_to demo_ticket_ip \<noteq> Some 2"
    by (simp_all add: demo_ticket_ip_def)
  from complete_by_assignee_only [OF m, of 1 300] a(1,2)
  obtain out where "staff_assigned_tickets (exec ?evs init_db) 300 1 (Some (complete_key demo_ticket_ip)) =
           ((exec ?evs init_db)\<lparr>service_tickets :=
                map (\<lambda>x. if x = demo_ticket_ip
                          then demo_ticket_ip\<lparr>status := ''Completed'', updated_at := 300\<rparr> else x)
                  (service_tickets (exec ?evs init_db))\<rparr>, out)"
    by blast
  then have r1: "fst (staff_assigned_tickets (exec ?evs init_db) 300 1
          (Some (complete_key demo_ticket_ip))) = demo_db4"
    unfolding demo_exec3
    by (simp add: demo_db3_tickets) (simp add: demo_db3_def demo_db4_def demo_ticket_ip_def)
  from complete_by_assignee_only [OF m, of 2 300] a(3)
  obtain out2 where "staff_assigned_tickets (exec ?evs init_db) 300 2 (Some (complete_key demo_ticket_ip)) =
           (exec ?evs init_db, out2)"
    by blast
  then have r2: "staff_assigned_tickets (exec ?evs init_db) 300 2
          (Some (complete_key demo_ticket_ip)) =
     (demo_db3, [Header ''My Assigned Tickets'', Write [Lit ''No tickets assigned to you.'']])"
    unfolding demo_exec3 demo_complete_key demo_refused_run by simp
  show ?thesis using m a r1 r2 by blast
qed

subsection \<open>C6: check-out\<close>

text \<open>
  C6. A check-out attempt is a run of the attendance page for user \<open>uid\<close> on day
  \<open>today\<close> started by the Check Out button, in a database whose attendance keys are
  distinct (the primary key; it holds in every reachable database, lemma
  \<open>att_inv_exec\<close>). With no record for that day nothing changes and the page only offers
  Check In (the specification's NoOpenSession). With a record that already has a
  check-out time nothing changes and the page says "You have already checked in and out
  for today." (AlreadyCheckedOut). With an open record, exactly that record gets the
  check-out time \<open>now\<close>, every other row is as before, and the record found for the day
  afterwards is the closed one.
\<close>

theorem check_out_cases:
  assumes "distinct (map attendance_id (attendance d))"
  shows
    "(List.find (\<lambda>r. att_user_id r = uid \<and> date r = today) (attendance d) = None \<longrightarrow>
        staff_attendance d today now uid (Some [Lit ''Check Out'']) =
          (d, [Header ''Attendance'', Button [Lit ''Check In''] [Lit ''Check In'']])) \<and>
     (\<forall>r t. List.find (\<lambda>r. att_user_id r = uid \<and> date r = today) (attendance d) = Some r \<and>
          check_out r = Some t \<longrightarrow>
        staff_attendance d today now uid (Some [Lit ''Check Out'']) =
          (d, [Header ''Attendance'',
               Write [Lit ''You have already checked in and out for today.''],
               Write [Lit ''Check In: '', TimeV (Some (check_in r)),
                      Lit '' | Check Out: '', TimeV (Some t)]])) \<and>
     (\<forall>r. List.find (\<lambda>r. att_user_id r = uid \<and> date r = today) (attendance d) = Some r \<and>
          check_out r = None \<longrightarrow>
        staff_attendance d today now uid (Some [Lit ''Check Out'']) =
          (d\<lparr>attendance := map (\<lambda>x. if x = r then r\<lparr>check_out := Some now\<rparr> else x) (attendance d)\<rparr>,
           [Header ''Attendance'',
            Write [Lit ''Checked in at: '', TimeV (Some (check_in r))],
            Button [Lit ''Check Out''] [Lit ''Check Out''],
            Success [Lit ''Checked out successfully!''], Rerun]) \<and>
        List.find (\<lambda>r. att_user_id r = uid \<and> date r = today)
          (map (\<lambda>x. if x = r then r\<lparr>check_out := Some now\<rparr> else x) (attendance d)) =
          Some (r\<lparr>check_out := Some now\<rparr>))"
proof (intro conjI allI impI)
  assume "List.find (\<lambda>r. att_user_id r = uid \<and> date r = today) (attendance d) = None"
  then show "staff_attendance d today now uid (Some [Lit ''Check Out'']) =
          (d, [Header ''Attendance'', Button [Lit ''Check In''] [Lit ''Check In'']])"
    by (rule staff_attendance_none) simp
next
  fix r t
  assume a: "List.find (\<lambda>r. att_user_id r = uid \<and> date r = today) (attendance d) = Some r \<and>
          check_out r = Some t"
  then have f: "List.find (\<lambda>r. att_user_id r = uid \<and> date r = today) (attendance d) = Some r"
    and c: "check_out r = Some t" by simp_all
  show "staff_attendance d today now uid (Some [Lit ''Check Out'']) =
          (d, [Header ''Attendance'',
               Write [Lit ''You have already checked in and out for today.''],
               Write [Lit ''Check In: '', TimeV (Some (check_in r)),
                      Lit '' | Check Out: '', TimeV (Some t)]])"
    unfolding staff_attendance_closed [OF f c] using c by simp
next
  fix r
  assume a: "List.find (\<lambda>r. att_user_id r = uid \<and> date r = today) (attendance d) = Some r \<and>
          check_out r = None"
  then have f: "List.find (\<lambda>r. att_user_id r = uid \<and> date r = today) (attendance d) = Some r"
    and c: "check_out r = None" by simp_all
  have r: "r \<in> set (attendance d)" using f unfolding find_Some_iff by auto
  have Pr: "att_user_id r = uid \<and> date r = today" using f unfolding find_Some_iff by blast
  have upd: "map (\<lambda>x. if attendance_id x = attendance_id r then r\<lparr>check_out := Some now\<rparr> else x)
                  (attendance d) =
             map (\<lambda>x. if x = r then r\<lparr>check_out := Some now\<rparr> else x) (attendance d)"
    by (rule update_by_key [OF assms r])
  show "staff_attendance d today now uid (Some [Lit ''Check Out'']) =
          (d\<lparr>attendance := map (\<lambda>x. if x = r then r\<lparr>check_out := Some now\<rparr> else x) (attendance d)\<rparr>,
           [Header ''Attendance'',
            Write [Lit ''Checked in at: '', TimeV (Some (check_in r))],
            Button [Lit ''Check Out''] [Lit ''Check Out''],
            Success [Lit ''Checked out successfully!''], Rerun])"
    unfolding staff_attendance_check_out [OF f c] upd by (rule refl)
  show "List.find (\<lambda>r. att_user_id r = uid \<and> date r = today)
          (map (\<lambda>x. if x = r then r\<lparr>check_out := Some now\<rparr> else x) (attendance d)) =
          Some (r\<lparr>check_out := Some now\<rparr>)"
    by (rule find_map_update [OF f]) (simp add: Pr)
qed

theorem check_out_cases_witness:
  "distinct (map attendance_id (attendance init_db)) \<and>
   distinct (map attendance_id (attendance demo_open)) \<and>
   distinct (map attendance_id (attendance demo_closed)) \<and>
   List.find (\<lambda>r. att_user_id r = 2 \<and> date r = 738000) (attendance init_db) = None \<and>
   staff_attendance init_db 738000 1700 2 (Some [Lit ''Check Out'']) =
     (init_db, [Header ''Attendance'', Button [Lit ''Check In''] [Lit ''Check In'']]) \<and>
   List.find (\<lambda>r. att_user_id r = 2 \<and> date r = 738000) (attendance demo_open) = Some demo_record \<and>
   check_out demo_record = None \<and>
   staff_attendance demo_open 738000 1700 2 (Some [Lit ''Check Out'']) =
     (demo_closed,
      [Header ''Attendance'', Write [Lit ''Checked in at: '', TimeV (Some 900)],
       Button [Lit ''Check Out''] [Lit ''Check Out''],
       Success [Lit ''Checked out successfully!''], Rerun]) \<and>
   List.find (\<lambda>r. att_user_id r = 2 \<and> date r = 738000) (attendance demo_closed) =
     Some (demo_record\<lparr>check_out := Some 1700\<rparr>) \<and>
   staff_attendance demo_closed 738000 1800 2 (Some [Lit ''Check Out'']) =
     (demo_closed,
      [Header ''Attendance'', Write [Lit ''You have already checked in and out for today.''],
       Write [Lit ''Check In: '', TimeV (Some 900), Lit '' | Check Out: '', TimeV (Some 1700)]])"
proof -
  have d0: "distinct (map attendance_id (attendance init_db))" by (simp add: init_db_def)
  have d1: "distinct (map attendance_id (attendance demo_open))"
    by (simp add: demo_open_def init_db_def)
  have d2: "distinct (map attendance_id (attendance demo_closed))"
    by (simp add: demo_closed_def init_db_def)
  have f0: "List.find (\<lambda>r. att_user_id r = 2 \<and> date r = 738000) (attendance init_db) = None"
    by (simp add: init_db_def)
  have c1: "check_out demo_record = None" by (simp add: demo_record_def)
  have c2: "check_out (demo_record\<lparr>check_out := Some 1700\<rparr>) = Some 1700" by simp
  have r0: "staff_attendance init_db 738000 1700 2 (Some [Lit ''Check Out'']) =
     (init_db, [Header ''Attendance'', Button [Lit ''Check In''] [Lit ''Check In'']])"
    using check_out_cases [OF d0, of 2 738000 1700] f0 by blast
  have "staff_attendance demo_open 738000 1700 2 (Some [Lit ''Check Out'']) =
          (demo_open\<lparr>attendance := map (\<lambda>x. if x = demo_record then demo_record\<lparr>check_out := Some 1700\<rparr> else x)
              (attendance demo_open)\<rparr>,
           [Header ''Attendance'',
            Write [Lit ''Checked in at: '', TimeV (Some (check_in demo_record))],
            Button [Lit ''Check Out''] [Lit ''Check Out''],
            Success [Lit ''Checked out successfully!''], Rerun])"
    using check_out_cases [OF d1, of 2 738000 1700] demo_find_open c1 by blast
  then have r1: "staff_attendance demo_open 738000 1700 2 (Some [Lit ''Check Out'']) =
     (demo_closed,
      [Header ''Attendance'', Write [Lit ''Checked in at: '', TimeV (Some 900)],
       Button [Lit ''Check Out''] [Lit ''Check Out''],
       Success [Lit ''Checked out successfully!''], Rerun])"
    by (simp add: demo_open_def demo_closed_def demo_record_def init_db_def)
  have "staff_attendance demo_closed 738000 1800 2 (Some [Lit ''Check Out'']) =
          (demo_closed, [Header ''Attendance'',
               Write [Lit ''You have already checked in and out for today.''],
               Write [Lit ''Check In: '', TimeV (Some (check_in (demo_record\<lparr>check_out := Some 1700\<rparr>))),
                      Lit '' | Check Out: '', TimeV (Some 1700)]])"
    using check_out_cases [OF d2, of 2 738000 1800] demo_find_closed c2 by blast
  then have r2: "staff_attendance demo_closed 738000 1800 2 (Some [Lit ''Check Out'']) =
     (demo_closed,
      [Header ''Attendance'', Write [Lit ''You have already checked in and out for today.''],
       Write [Lit ''Check In: '', TimeV (Some 900), Lit '' | Check Out: '', TimeV (Some 1700)]])"
    by (simp add: demo_record_def)
  show ?thesis using d0 d1 d2 f0 c1 r0 r1 r2 demo_find_open demo_find_closed by simp
qed

subsection \<open>C7: raising a ticket\<close>

text \<open>
  C7 as stated says that an empty description is rejected. The code has no such check:
  submitting the request form with the description left empty creates the ticket, with
  the empty description, and reports success.
\<close>

theorem empty_description_accepted:
  "client_service_request init_db 7 100 101 (Some ''Plumber'') '''' (Some [Lit ''Submit Request'']) =
     Inr (init_db\<lparr>service_tickets := [demo_empty_ticket]\<rparr>,
          [Header ''Raise Service Request'',
           Button [Lit ''Submit Request''] [Lit ''Submit Request''],
           Success [Lit ''Service request submitted successfully!'']]) \<and>
   description demo_empty_ticket = ''''"
  by (simp add: client_service_request_def button_def selectbox_def service_types_def
      init_db_def demo_empty_ticket_def next_id_def Let_def)

text \<open>
  C7, amended. Submitting the request form always creates one ticket, whatever the
  description is (empty included): its service type is one of the fixed categories (the
  select box returns nothing else), its description is the text as typed, its status is
  Pending, \<^verbatim>\<open>assigned_to\<close> is null, its key is fresh, and \<^verbatim>\<open>created_at\<close> and
  \<^verbatim>\<open>updated_at\<close> are the two readings of \<^verbatim>\<open>datetime.utcnow\<close> taken at the insert.
\<close>

theorem raise_creates_pending:
  "\<exists>st\<in>set service_types.
     client_service_request d uid utcnow_created utcnow_updated choice descr
         (Some [Lit ''Submit Request'']) =
       Inr (d\<lparr>service_tickets := service_tickets d @
               [\<lparr>ticket_id = next_id (map ticket_id (service_tickets d)),
                 client_id = uid, service_type = st, description = descr,
                 assigned_to = None, status = ''Pending'',
                 created_at = utcnow_created, updated_at = utcnow_updated\<rparr>]\<rparr>,
            [Header ''Raise Service Request'',
             Button [Lit ''Submit Request''] [Lit ''Submit Request''],
             Success [Lit ''Service request submitted successfully!'']])"
proof -
  have "service_types \<noteq> []" by (simp add: service_types_def)
  then obtain st where st: "st \<in> set service_types" "selectbox service_types choice = Some st"
    using selectbox_nonempty by blast
  show ?thesis
    by (rule bexI [OF _ st(1)]) (simp add: client_service_request_def button_def Let_def st(2))
qed

subsection \<open>C8: the attendance report\<close>

text \<open>
  C8 as stated says that the report is ordered by date, then by user identifier. The
  query has no ordering: after user 2 and then user 1 check in on the same day, the
  report of that day lists user 2 before user 1.
\<close>

theorem report_unordered:
  "map att_user_id (attendance_between (exec demo_two_check_ins init_db) 738000 738000) = [2, 1] \<and>
   map date (attendance_between (exec demo_two_check_ins init_db) 738000 738000) = [738000, 738000]"
  by (simp add: attendance_between_def exec_def demo_two_check_ins_def staff_attendance_def
      button_def init_db_def next_id_def)

text \<open>
  C8, amended. The report over \<open>start_date\<close> and \<open>end_date\<close> holds exactly the stored
  records whose date lies in the inclusive range, each as often as it is stored, in the
  order in which they are stored (no ordering by date or user is applied). With equal
  bounds it holds exactly the records of that day. The page shows one line for each of
  them, and the line "No attendance records found for the selected period." when there
  is none; it is a total function, so it never fails.
\<close>

theorem report_range:
  "set (attendance_between d start_date end_date) =
     {r \<in> set (attendance d). start_date \<le> date r \<and> date r \<le> end_date} \<and>
   (\<forall>r. count_list (attendance_between d start_date end_date) r =
        (if start_date \<le> date r \<and> date r \<le> end_date then count_list (attendance d) r else 0)) \<and>
   subseq (attendance_between d start_date end_date) (attendance d) \<and>
   attendance_between d start_date start_date = filter (\<lambda>r. date r = start_date) (attendance d) \<and>
   attendance_report d start_date end_date (Some [Lit ''Generate Report'']) =
     [Header ''Attendance Report'', Button [Lit ''Generate Report''] [Lit ''Generate Report'']] @
     (if attendance_between d start_date end_date = []
      then [Write [Lit ''No attendance records found for the selected period.'']]
      else map report_line (attendance_between d start_date end_date)) \<and>
   ((\<forall>r\<in>set (attendance d). date r \<noteq> start_date) \<longrightarrow>
      attendance_report d start_date start_date (Some [Lit ''Generate Report'']) =
        [Header ''Attendance Report'', Button [Lit ''Generate Report''] [Lit ''Generate Report''],
         Write [Lit ''No attendance records found for the selected period.'']])"
proof (intro conjI allI impI)
  show "set (attendance_between d start_date end_date) =
     {r \<in> set (attendance d). start_date \<le> date r \<and> date r \<le> end_date}"
    by (simp add: attendance_between_def)
  show "count_list (attendance_between d start_date end_date) r =
        (if start_date \<le> date r \<and> date r \<le> end_date then count_list (attendance d) r else 0)" for r
    unfolding attendance_between_def by (rule count_list_filter)
  show "subseq (attendance_between d start_date end_date) (attendance d)"
    by (simp add: attendance_between_def)
  have "(\<lambda>r. start_date \<le> date r \<and> date r \<le> start_date) = (\<lambda>r. date r = start_date)"
    by (rule ext) auto
  then show "attendance_between d start_date start_date = filter (\<lambda>r. date r = start_date) (attendance d)"
    unfolding attendance_between_def by (rule arg_cong)
  show rep: "attendance_report d start_date end_date (Some [Lit ''Generate Report'']) =
     [Header ''Attendance Report'', Button [Lit ''Generate Report''] [Lit ''Generate Report'']] @
     (if attendance_between d start_date end_date = []
      then [Write [Lit ''No attendance records found for the selected period.'']]
      else map report_line (attendance_between d start_date end_date))" for end_date
    by (simp add: attendance_report_def button_def Let_def)
  assume "\<forall>r\<in>set (attendance d). date r \<noteq> start_date"
  then have "attendance_between d start_date start_date = []"
    by (auto simp: attendance_between_def filter_empty_conv)
  then show "attendance_report d start_date start_date (Some [Lit ''Generate Report'']) =
        [Header ''Attendance Report'', Button [Lit ''Generate Report''] [Lit ''Generate Report''],
         Write [Lit ''No attendance records found for the selected period.'']]"
    unfolding rep by simp
qed

theorem report_range_witness:
  "attendance demo_open = [demo_record] \<and> date demo_record \<noteq> 738001 \<and>
   attendance_report demo_open 738001 738001 (Some [Lit ''Generate Report'']) =
     [Header ''Attendance Report'', Button [Lit ''Generate Report''] [Lit ''Generate Report''],
      Write [Lit ''No attendance records found for the selected period.'']] \<and>
   attendance_report demo_open 738000 738000 (Some [Lit ''Generate Report'']) =
     [Header ''Attendance Report'', Button [Lit ''Generate Report''] [Lit ''Generate Report''],
      report_line demo_record]"
proof -
  have h: "\<forall>r\<in>set (attendance demo_open). date r \<noteq> 738001"
    by (simp add: demo_open_def demo_record_def init_db_def)
  have b: "attendance_between demo_open 738000 738000 = [demo_record]"
    by (simp add: attendance_between_def demo_open_def demo_record_def init_db_def)
  from report_range [of demo_open 738001 738001] h
  have r1: "attendance_report demo_open 738001 738001 (Some [Lit ''Generate Report'']) =
     [Header ''Attendance Report'', Button [Lit ''Generate Report''] [Lit ''Generate Report''],
      Write [Lit ''No attendance records found for the selected period.'']]"
    by blast
  from report_range [of demo_open 738000 738000]
  have "attendance_report demo_open 738000 738000 (Some [Lit ''Generate Report'']) =
     [Header ''Attendance Report'', Button [Lit ''Generate Report''] [Lit ''Generate Report'']] @
     (if attendance_between demo_open 738000 738000 = []
      then [Write [Lit ''No attendance records found for the selected period.'']]
      else map report_line (attendance_between demo_open 738000 738000))"
    by blast
  then have r2: "attendance_report demo_open 738000 738000 (Some [Lit ''Generate Report'']) =
     [Header ''Attendance Report'', Button [Lit ''Generate Report''] [Lit ''Generate Report''],
      report_line demo_record]"
    unfolding b by simp
  have a: "attendance demo_open = [demo_record]" by (simp add: demo_open_def init_db_def)
  have n: "date demo_record \<noteq> 738001" by (simp add: demo_record_def)
  show ?thesis using a n r1 r2 by blast
qed

subsection \<open>C9: the role of a new user\<close>

text \<open>
  C9 as stated (user creation validates the role against the fixed enum and fails with
  InvalidRole otherwise, creating no user) does not hold of \<^verbatim>\<open>create_user\<close>: it
  stores whatever role it is given. Here it is called, as the seeding script calls it,
  with the role "superuser", which is none of the four roles, and the user is created.
\<close>

theorem create_user_unvalidated_role:
  "''superuser'' \<notin> set roles \<and>
   create_user demo_hashpw ''salt'' 738000 init_db demo_user_data =
     Inr (init_db\<lparr>users := [demo_root]\<rparr>, demo_root) \<and>
   role demo_root = ''superuser''"
  by (simp add: demo_create_root) (simp add: roles_def demo_root_def)

text \<open>
  C9, amended. A user created through the registration form has a role from the fixed
  list staff, client, manager, admin, because the role select box offers no other value;
  \<^verbatim>\<open>create_user\<close> itself performs no validation: whenever it succeeds it appends
  one user whose role is exactly the role it was given.
\<close>

theorem role_from_form_only:
  "(register_user hashpw salt today d f clicked = Inr (d', out) \<longrightarrow>
      users d' = users d \<or> (\<exists>u. users d' = users d @ [u] \<and> role u \<in> set roles)) \<and>
   (create_user hashpw salt today d ud = Inr (d2, u2) \<longrightarrow>
      users d2 = users d @ [u2] \<and> ud_role ud = Some (role u2))"
proof (intro conjI impI)
  assume run: "register_user hashpw salt today d f clicked = Inr (d', out)"
  show "users d' = users d \<or> (\<exists>u. users d' = users d @ [u] \<and> role u \<in> set roles)"
  proof (cases "button clicked [Lit ''Register''] \<and> rf_password f = rf_confirm_password f \<and>
      get_user_by_email d (rf_email f) = None")
    case False
    then have "d' = d" using run by (rule register_user_idle)
    then show ?thesis by simp
  next
    case True
    let ?ud = "\<lparr>ud_full_name = Some (rf_full_name f),
                 ud_phone_number = Some (rf_phone_number f),
                 ud_email = Some (rf_email f),
                 ud_aadhar_number = Some (rf_aadhar_number f),
                 ud_service_domain = Some (rf_service_domain f),
                 ud_role = selectbox roles (rf_role f),
                 ud_level_of_employment = Some (rf_level_of_employment f),
                 ud_date_of_joining = Some (rf_date_of_joining f),
                 ud_salary = Some (rf_salary f),
                 ud_certifications = Some (rf_certifications f),
                 ud_password = Some (rf_password f)\<rparr>"
    have eq: "register_user hashpw salt today d f clicked =
        (case create_user hashpw salt today d ?ud of Inl e \<Rightarrow> Inl e
         | Inr (d', u) \<Rightarrow>
             Inr (d', [Header ''Register New User'', Button [Lit ''Register''] [Lit ''Register'']]
                      @ [Success [Lit ''User registered successfully!'']]))"
      by (rule register_user_creates) (simp_all add: True)
    obtain u where cu: "create_user hashpw salt today d ?ud = Inr (d', u)"
    proof (cases "create_user hashpw salt today d ?ud")
      case (Inl e)
      then show ?thesis using run unfolding eq by simp
    next
      case (Inr res)
      obtain d3 u3 where res: "res = (d3, u3)" by (cases res)
      have "d3 = d'" using run unfolding eq Inr res by simp
      then show ?thesis using that Inr res by simp
    qed
    from create_user_role [OF cu]
    have "users d' = users d @ [u]" "selectbox roles (rf_role f) = Some (role u)"
      by simp_all
    then have "role u \<in> set roles" using selectbox_member by fastforce
    then show ?thesis using \<open>users d' = users d @ [u]\<close> by (intro disjI2 exI [of _ u]) simp
  qed
next
  assume "create_user hashpw salt today d ud = Inr (d2, u2)"
  then have "users d2 = users d @ [u2] \<and> ud_role ud = Some (role u2)"
    by (rule create_user_role)
  then show "users d2 = users d @ [u2]" "ud_role ud = Some (role u2)"
    by simp_all
qed

theorem role_from_form_only_witness:
  "register_user demo_hashpw ''salt'' 738000 init_db demo_form (Some [Lit ''Register'']) =
     Inr (init_db\<lparr>users := [demo_staff]\<rparr>,
          [Header ''Register New User'', Button [Lit ''Register''] [Lit ''Register''],
           Success [Lit ''User registered successfully!'']]) \<and>
   role demo_staff \<in> set roles \<and>
   create_user demo_hashpw ''salt'' 738000 init_db demo_user_data =
     Inr (init_db\<lparr>users := [demo_root]\<rparr>, demo_root) \<and>
   ud_role demo_user_data = Some (role demo_root)"
proof -
  note r = demo_register_staff
  note c = demo_create_root
  from role_from_form_only [of demo_hashpw "''salt''" 738000 init_db demo_form
      "Some [Lit ''Register'']" "init_db\<lparr>users := [demo_staff]\<rparr>" _ demo_user_data
      "init_db\<lparr>users := [demo_root]\<rparr>" demo_root] r c
  have "role demo_staff \<in> set roles" "ud_role demo_user_data = Some (role demo_root)"
    by (simp_all add: init_db_def)
  then show ?thesis using r c by simp
qed

subsection \<open>C10: differing passwords\<close>

text \<open>
  C10. If the password and the confirm-password inputs of the registration form differ,
  the registration is rejected and no user record is created, whatever the other fields
  hold: for every database, form, salt and click, the run of \<^verbatim>\<open>register_user\<close>
  returns the database unchanged, shows no success message, and, when the Register
  button started the run, shows the error "Passwords do not match!".
\<close>

theorem register_password_mismatch:
  assumes "rf_password f \<noteq> rf_confirm_password f"
  shows "\<exists>out. register_user hashpw salt today d f clicked = Inr (d, out) \<and>
           (\<forall>m. Success m \<notin> set out) \<and>
           (clicked = Some [Lit ''Register''] \<longrightarrow> Error ''Passwords do not match!'' \<in> set out)"
  using assms by (simp add: register_user_def button_def Let_def)

theorem register_password_mismatch_witness:
  "rf_password (demo_form\<lparr>rf_confirm_password := ''secrex''\<rparr>) \<noteq>
     rf_confirm_password (demo_form\<lparr>rf_confirm_password := ''secrex''\<rparr>) \<and>
   (\<exists>out. register_user demo_hashpw ''salt'' 738000 init_db
            (demo_form\<lparr>rf_confirm_password := ''secrex''\<rparr>) (Some [Lit ''Register'']) =
              Inr (init_db, out) \<and>
          Error ''Passwords do not match!'' \<in> set out)"
proof -
  have h: "rf_password (demo_form\<lparr>rf_confirm_password := ''secrex''\<rparr>) \<noteq>
     rf_confirm_password (demo_form\<lparr>rf_confirm_password := ''secrex''\<rparr>)"
    by (simp add: demo_form_def)
  from register_password_mismatch [OF h, of demo_hashpw "''salt''" 738000 init_db "Some [Lit ''Register'']"]
  show ?thesis using h by blast
qed

end
